theory Spec2Isabelle
  imports Complex_Main "HOL-Library.AList" "HOL-Library.Char_ord" "HOL-Library.List_Lexorder"
begin

section \<open>Values, rows and tables\<close>

text \<open>
  The pipeline (\<^verbatim>\<open>churchland_pipeline_python/acquisition.py\<close>) moves Python dictionaries
  into database tables.  A dictionary is an association list in insertion order:
  \<^verbatim>\<open>key['a'] = v\<close> is \<open>AList.update\<close>, which overwrites in place when the field is
  present and appends otherwise, as a Python \<^verbatim>\<open>dict\<close> does; \<^verbatim>\<open>key.copy()\<close> is the
  list itself, since HOL values are immutable.

  Strings are byte strings: directory and file names and electrode labels are taken
  to be ASCII / Latin-1 text, on which Python's \<^verbatim>\<open>\d\<close> is the ten digits and
  \<^verbatim>\<open>sorted\<close> is the order of the character codes.  Floating point values are only
  copied by the code; they are carried as reals.
\<close>

datatype val = Str string | Num int | Flt real

type_synonym row = "(string \<times> val) list"

datatype error =
    AssertionError
  | DataJointError     \<comment> \<open>\<^verbatim>\<open>fetch1\<close> on a query that does not have exactly one row\<close>
  | InsertError        \<comment> \<open>\<^verbatim>\<open>insert1\<close> refused by the store\<close>
  | KeyError
  | AttributeError
  | NameError          \<comment> \<open>a local variable read before any assignment\<close>
  | IndexError
  | StopIteration
  | OSError
  | TypeError
  | VendorError        \<comment> \<open>raised by the vendor reader (\<^verbatim>\<open>brpylib\<close>)\<close>

section \<open>Regular expressions of the source\<close>

text \<open>
  Every pattern of the source is used through \<^verbatim>\<open>re.search\<close>, which tries a match at
  every start position, from the left.  \<open>re_search m s\<close> holds when the matcher \<open>m\<close>
  accepts at some position of \<open>s\<close> (the empty rest included).
\<close>

fun re_search :: "(string \<Rightarrow> bool) \<Rightarrow> string \<Rightarrow> bool" where
  "re_search m [] = m []"
| "re_search m (c # cs) = (m (c # cs) \<or> re_search m cs)"

definition digit :: "char \<Rightarrow> bool" where
  "digit c = (c \<in> set ''0123456789'')"

definition newline :: char where
  "newline = CHR 0x0A"

text \<open>\<^verbatim>\<open>.*\<close> followed by \<open>m\<close>: any run of characters other than a newline, then \<open>m\<close>.\<close>

fun dotstar :: "(string \<Rightarrow> bool) \<Rightarrow> string \<Rightarrow> bool" where
  "dotstar m [] = m []"
| "dotstar m (c # cs) = (m (c # cs) \<or> (c \<noteq> newline \<and> dotstar m cs))"

text \<open>A literal: the rest of the subject starts with it.\<close>

fun lit :: "string \<Rightarrow> string \<Rightarrow> bool" where
  "lit [] s = True"
| "lit (p # ps) [] = False"
| "lit (p # ps) (c # cs) = (p = c \<and> lit ps cs)"

text \<open>\<^verbatim>\<open>\d{4}-\d{2}-\d{2}\<close> at the start of the rest.\<close>

fun date_at :: "string \<Rightarrow> bool" where
  "date_at (y1 # y2 # y3 # y4 # h1 # m1 # m2 # h2 # d1 # d2 # rest) =
     (digit y1 \<and> digit y2 \<and> digit y3 \<and> digit y4 \<and> h1 = CHR ''-'' \<and>
      digit m1 \<and> digit m2 \<and> h2 = CHR ''-'' \<and> digit d1 \<and> digit d2)"
| "date_at _ = False"

definition search_date :: "string \<Rightarrow> bool" where
  "search_date d = re_search date_at d"

text \<open>\<^verbatim>\<open>.*notes\.txt\<close> and \<^verbatim>\<open>.*\.summary\<close>.\<close>

definition search_notes :: "string \<Rightarrow> bool" where
  "search_notes x = re_search (dotstar (lit ''notes.txt'')) x"

definition search_summary :: "string \<Rightarrow> bool" where
  "search_summary f = re_search (dotstar (lit ''.summary'')) f"

text \<open>\<^verbatim>\<open>.*(emg|neu|neu_emg)_00\d\.ns\d\<close>.\<close>

fun nsx_tail :: "string \<Rightarrow> bool" where
  "nsx_tail (u # z1 # z2 # d # dot # n # s # e # rest) =
     (u = CHR ''_'' \<and> z1 = CHR ''0'' \<and> z2 = CHR ''0'' \<and> digit d \<and>
      dot = CHR ''.'' \<and> n = CHR ''n'' \<and> s = CHR ''s'' \<and> digit e)"
| "nsx_tail _ = False"

definition nsx_alt :: "string \<Rightarrow> bool" where
  "nsx_alt s = ((lit ''emg'' s \<and> nsx_tail (drop 3 s)) \<or>
                (lit ''neu'' s \<and> nsx_tail (drop 3 s)) \<or>
                (lit ''neu_emg'' s \<and> nsx_tail (drop 7 s)))"

definition search_nsx :: "string \<Rightarrow> bool" where
  "search_nsx f = re_search (dotstar nsx_alt) f"

text \<open>\<^verbatim>\<open>^\d\<close>: the anchor allows the first position only.\<close>

fun search_leading_digit :: "string \<Rightarrow> bool" where
  "search_leading_digit [] = False"
| "search_leading_digit (c # cs) = digit c"

text \<open>
  \<^verbatim>\<open>ainp[1-8]$\<close>: without the MULTILINE flag, \<^verbatim>\<open>$\<close> is the end of the subject or the
  position before a newline that ends the subject.
\<close>

fun ainp_at :: "string \<Rightarrow> bool" where
  "ainp_at (a # i # n # p # c # rest) =
     (a = CHR ''a'' \<and> i = CHR ''i'' \<and> n = CHR ''n'' \<and> p = CHR ''p'' \<and>
      c \<in> set ''12345678'' \<and> (rest = [] \<or> rest = [newline]))"
| "ainp_at _ = False"

definition search_ainp :: "string \<Rightarrow> bool" where
  "search_ainp l = re_search ainp_at l"

section \<open>Channel label classification\<close>

text \<open>
  The \<^verbatim>\<open>if\<close>/\<^verbatim>\<open>elif\<close> chain of \<^verbatim>\<open>EphysRecording.make\<close> (lines 289 to 299).  It has no
  \<^verbatim>\<open>else\<close>: a label that no test accepts leaves the dictionary as it is.
\<close>

definition set_channel_label :: "string \<Rightarrow> row \<Rightarrow> row" where
  "set_channel_label ElectrodeLabel key =
     (if search_leading_digit ElectrodeLabel then
        AList.update ''channel_label'' (Str ''brain'') key
      else if search_ainp ElectrodeLabel then
        AList.update ''channel_label'' (Str ''emg'') key
      else if ElectrodeLabel = ''ainp15'' then
        AList.update ''channel_label'' (Str ''stim'') key
      else if ElectrodeLabel = ''ainp16'' then
        AList.update ''channel_label'' (Str ''sync'') key
      else key)"

section \<open>The catalog, the file system and the vendor reader\<close>

text \<open>
  The tables this module declares or reads, as lists of rows in insertion order, with
  what the code prints and the vendor files it holds open.
\<close>

record world =
  Session_tbl :: "row list"
  Session_Hardware_tbl :: "row list"
  Session_Notes_tbl :: "row list"
  BehaviorRecording_tbl :: "row list"
  EphysRecording_tbl :: "row list"
  EphysRecording_Channel_tbl :: "row list"
  Task_tbl :: "row list"
  equipment_Hardware_tbl :: "row list"
  printed :: "string list"
  open_files :: "string list"

datatype tbl = Session | Session_Hardware | Session_Notes
  | BehaviorRecording | EphysRecording | EphysRecording_Channel

text \<open>The header record of one electrode and the data of one channel, as \<^verbatim>\<open>brpylib\<close> gives them.\<close>

record elec =
  ElectrodeID :: int
  ElectrodeLabel :: string

record nsx_data =
  samp_per_s :: real
  data_time_s :: real

record nsx_file =
  extended_headers :: "elec list"
  getdata :: "int \<Rightarrow> nsx_data option"

text \<open>
  What lies outside the repository is a parameter: the file system (\<open>None\<close> where the
  call raises), the vendor reader, the path collaborator \<^verbatim>\<open>reference.EngramPath\<close>, and
  the store's decision to refuse a row (\<^verbatim>\<open>insert1\<close> raises then).
\<close>

record env =
  getlocalpath :: string
  ensureglobal :: "string \<Rightarrow> string"
  listdir :: "string \<Rightarrow> string list option"
  read_text :: "string \<Rightarrow> string option"
  NsxFile :: "string \<Rightarrow> nsx_file option"
  refuses :: "tbl \<Rightarrow> row \<Rightarrow> world \<Rightarrow> bool"

type_synonym outcome = "(error \<times> world) + world"

fun add_row :: "tbl \<Rightarrow> row \<Rightarrow> world \<Rightarrow> world" where
  "add_row Session r w = w\<lparr>Session_tbl := Session_tbl w @ [r]\<rparr>"
| "add_row Session_Hardware r w = w\<lparr>Session_Hardware_tbl := Session_Hardware_tbl w @ [r]\<rparr>"
| "add_row Session_Notes r w = w\<lparr>Session_Notes_tbl := Session_Notes_tbl w @ [r]\<rparr>"
| "add_row BehaviorRecording r w = w\<lparr>BehaviorRecording_tbl := BehaviorRecording_tbl w @ [r]\<rparr>"
| "add_row EphysRecording r w = w\<lparr>EphysRecording_tbl := EphysRecording_tbl w @ [r]\<rparr>"
| "add_row EphysRecording_Channel r w =
     w\<lparr>EphysRecording_Channel_tbl := EphysRecording_Channel_tbl w @ [r]\<rparr>"

definition insert1 :: "env \<Rightarrow> tbl \<Rightarrow> row \<Rightarrow> world \<Rightarrow> outcome" where
  "insert1 E t r w = (if refuses E t r w then Inl (InsertError, w) else Inr (add_row t r w))"

definition print :: "string \<Rightarrow> world \<Rightarrow> world" where
  "print msg w = w\<lparr>printed := printed w @ [msg]\<rparr>"

subsection \<open>The queries the code makes\<close>

text \<open>
  \<open>agree r key\<close>: the row has the value of \<open>key\<close> on every field they share.
  \<^verbatim>\<open>table & key\<close> keeps the rows that agree with the dictionary, \<^verbatim>\<open>A & B\<close> the rows
  of \<open>A\<close> that agree with some row of \<open>B\<close>, \<^verbatim>\<open>A * B\<close> joins the agreeing pairs.
  \<^verbatim>\<open>fetch1\<close> raises unless the query has exactly one row; a query is true when it has
  a row.
\<close>

definition agree :: "row \<Rightarrow> row \<Rightarrow> bool" where
  "agree r key = list_all (\<lambda>(k, v). case map_of r k of None \<Rightarrow> True | Some v' \<Rightarrow> v' = v) key"

definition restrict :: "row list \<Rightarrow> row \<Rightarrow> row list" where
  "restrict q key = filter (\<lambda>r. agree r key) q"

definition semijoin :: "row list \<Rightarrow> row list \<Rightarrow> row list" where
  "semijoin q q' = filter (\<lambda>r. list_ex (agree r) q') q"

definition join :: "row list \<Rightarrow> row list \<Rightarrow> row list" where
  "join q q' =
     concat (map (\<lambda>r. map (\<lambda>r'. r @ filter (\<lambda>(k, v). map_of r k = None) r')
                            (filter (agree r) q')) q)"

definition fetch1 :: "row list \<Rightarrow> error + row" where
  "fetch1 q = (case q of [r] \<Rightarrow> Inr r | _ \<Rightarrow> Inl DataJointError)"

definition proj :: "string list \<Rightarrow> row \<Rightarrow> row" where
  "proj pk r = filter (\<lambda>(k, v). k \<in> set pk) r"

text \<open>\<^verbatim>\<open>d[k]\<close> of a string field, and \<^verbatim>\<open>str(d[k])\<close>.\<close>

definition item :: "row \<Rightarrow> string \<Rightarrow> error + val" where
  "item d k = (case map_of d k of None \<Rightarrow> Inl KeyError | Some v \<Rightarrow> Inr v)"

definition lower_char :: "char \<Rightarrow> char" where
  "lower_char c =
     (case map_of (zip ''ABCDEFGHIJKLMNOPQRSTUVWXYZ'' ''abcdefghijklmnopqrstuvwxyz'') c of
        None \<Rightarrow> c | Some c' \<Rightarrow> c')"

definition lower :: "val \<Rightarrow> error + string" where
  "lower v = (case v of Str s \<Rightarrow> Inr (map lower_char s) | _ \<Rightarrow> Inl AttributeError)"

text \<open>
  \<^verbatim>\<open>str(d['session_date'])\<close>: the column is a date, carried here as the ISO text that
  \<^verbatim>\<open>str\<close> gives for it; no other value can be stored there.
\<close>

definition str :: "val \<Rightarrow> error + string" where
  "str v = (case v of Str s \<Rightarrow> Inr s | _ \<Rightarrow> Inl TypeError)"

text \<open>
  Sequencing.  \<open>or_raise r w k\<close> continues with the value of \<open>r\<close>, or propagates the
  exception that \<open>r\<close> raised, in the world \<open>w\<close> reached so far; \<open>and_then\<close> continues
  from the world an effect has left.  A file system call that raises is an OSError.
\<close>

definition or_raise :: "error + 'a \<Rightarrow> world \<Rightarrow> ('a \<Rightarrow> (error \<times> world) + 'b) \<Rightarrow> (error \<times> world) + 'b" where
  "or_raise r w k = (case r of Inl e \<Rightarrow> Inl (e, w) | Inr x \<Rightarrow> k x)"

definition and_then :: "(error \<times> world) + 'a \<Rightarrow> ('a \<Rightarrow> (error \<times> world) + 'b) \<Rightarrow> (error \<times> world) + 'b" where
  "and_then m k = (case m of Inl x \<Rightarrow> Inl x | Inr y \<Rightarrow> k y)"

definition os_call :: "'a option \<Rightarrow> error + 'a" where
  "os_call r = (case r of None \<Rightarrow> Inl OSError | Some x \<Rightarrow> Inr x)"

text \<open>
  \<^verbatim>\<open>next(filter(lambda x: x == dir, files))\<close>, where \<open>dir\<close> is a local variable that is
  unbound (\<open>None\<close>) when the \<^verbatim>\<open>if\<close> before it did not assign it: the lambda reads it
  at the first file, and \<^verbatim>\<open>next\<close> raises StopIteration when no file is accepted.
\<close>

definition next_eq :: "string option \<Rightarrow> string list \<Rightarrow> error + string" where
  "next_eq dir files =
     (case files of
        [] \<Rightarrow> Inl StopIteration
      | _ # _ \<Rightarrow>
         (case dir of
            None \<Rightarrow> Inl NameError
          | Some d \<Rightarrow> (case filter (\<lambda>x. x = d) files of
                         [] \<Rightarrow> Inl StopIteration
                       | x # _ \<Rightarrow> Inr x)))"

text \<open>\<^verbatim>\<open>next(x for x in files if p(x))\<close>: the first accepted file, in listing order.\<close>

definition next_match :: "(string \<Rightarrow> bool) \<Rightarrow> string list \<Rightarrow> error + string" where
  "next_match p files =
     (case filter p files of [] \<Rightarrow> Inl StopIteration | x # _ \<Rightarrow> Inr x)"

section \<open>Session\<close>

text \<open>\<^verbatim>\<open>Session.getrawpath\<close>, with \<^verbatim>\<open>os.path.sep\<close> the slash that \<^verbatim>\<open>populate\<close> itself appends.\<close>

definition getrawpath :: "env \<Rightarrow> val \<Rightarrow> val \<Rightarrow> val \<Rightarrow> error + string" where
  "getrawpath E monkey rig task =
     (case lower task of
        Inl e \<Rightarrow> Inl e
      | Inr task_l \<Rightarrow>
         (case lower monkey of
            Inl e \<Rightarrow> Inl e
          | Inr monkey_l \<Rightarrow>
             (case rig of
                Str rig_s \<Rightarrow>
                  Inr (getlocalpath E @ rig_s @ ''/'' @ task_l @ ''-task'' @ ''/'' @ monkey_l
                       @ ''/'' @ ''raw'' @ ''/'')
              | _ \<Rightarrow> Inl TypeError)))"

text \<open>The local variables of \<^verbatim>\<open>Session.populate\<close> that its loop reads.\<close>

record populate_locals =
  task :: "row list"
  monkey_key :: row
  rig_key :: row
  task_key :: row
  nsp_key :: row
  raw_path :: string

text \<open>
  The notes of a session (lines 162 to 168): the first file that the pattern accepts is
  read whole; without one the code prints and goes on.
\<close>

definition insert_notes :: "env \<Rightarrow> string \<Rightarrow> string list \<Rightarrow> row \<Rightarrow> string \<Rightarrow> world \<Rightarrow> outcome" where
  "insert_notes E session_path session_files session_key date w =
     (case next_match search_notes session_files of
        Inl _ \<Rightarrow> Inr (print (''Missing notes for session '' @ date) w)
      | Inr notes_files \<Rightarrow>
          or_raise (os_call (read_text E (session_path @ notes_files))) w (\<lambda>f_read.
            insert1 E Session_Notes
              (session_key @ [(''session_notes_id'', Num 0), (''session_notes'', Str f_read)]) w))"

text \<open>The body of \<^verbatim>\<open>for date in session_dates\<close> (lines 130 to 171).\<close>

definition populate_date :: "env \<Rightarrow> populate_locals \<Rightarrow> string \<Rightarrow> world \<Rightarrow> outcome" where
  "populate_date E L date w =
     (let session_path = raw_path L @ date @ ''/'' in
      or_raise (os_call (listdir E session_path)) w (\<lambda>session_files.
        let behavior_dir =
              (if restrict (task L) [(''task_controller_hardware'', Str ''Speedgoat'')] \<noteq> []
               then Some ''speedgoat'' else None)
        in
        (case next_eq behavior_dir session_files of
           Inl e \<Rightarrow>
             (if e = StopIteration
              then Inr (print (''Missing behavior files for session '' @ date) w)
              else Inl (e, w))
         | Inr _ \<Rightarrow>
             or_raise (item (nsp_key L) ''hardware'') w (\<lambda>hardware.
               let ephys_dir = (if hardware = Str ''Cerebus'' then Some ''blackrock'' else None)
               in
               (case next_eq ephys_dir session_files of
                  Inl e \<Rightarrow>
                    (if e = StopIteration
                     then Inr (print (''Missing ephys files for session '' @ date) w)
                     else Inl (e, w))
                | Inr _ \<Rightarrow>
                    (let session_key = (''session_date'', Str date) # monkey_key L in
                     and_then (insert1 E Session (session_key @ rig_key L @ task_key L) w) (\<lambda>w1.
                     and_then (insert_notes E session_path session_files session_key date w1) (\<lambda>w2.
                       insert1 E Session_Hardware (session_key @ nsp_key L) w2))))))))"

fun populate_dates :: "env \<Rightarrow> populate_locals \<Rightarrow> string list \<Rightarrow> world \<Rightarrow> outcome" where
  "populate_dates E L [] w = Inr w"
| "populate_dates E L (date # ds) w =
     and_then (populate_date E L date w) (\<lambda>w'. populate_dates E L ds w')"

text \<open>
  The candidate dates (lines 116 to 126).  \<open>dates\<close> is the argument as the caller gave
  it: \<open>None\<close> when it was left out, so that the default \<^verbatim>\<open>[]\<close> applies.
\<close>

definition dates_arg :: "string list option \<Rightarrow> string list" where
  "dates_arg dates = (case dates of None \<Rightarrow> [] | Some ds \<Rightarrow> ds)"

definition candidate_dates :: "string list option \<Rightarrow> string list \<Rightarrow> string list" where
  "candidate_dates dates listing =
     (let raw_dir = sort listing in
      if dates_arg dates \<noteq> []
      then filter (\<lambda>d. d \<in> set (dates_arg dates)) raw_dir
      else filter search_date raw_dir)"

definition session_dates :: "string list option \<Rightarrow> string list \<Rightarrow> world \<Rightarrow> string list" where
  "session_dates dates listing w =
     filter (\<lambda>date. restrict (Session_tbl w) [(''session_date'', Str date)] = [])
       (candidate_dates dates listing)"

text \<open>
  \<^verbatim>\<open>Session.populate\<close>.  \<open>monkey\<close>, \<open>rig\<close>, \<open>task\<close> and \<open>neural_signal_processor\<close> are the rows
  of the queries passed in (the \<^verbatim>\<open>isinstance\<close> assertions are their types; the default
  of the last is the Cerebus row of the hardware table); the primary keys that
  \<^verbatim>\<open>fetch1('KEY')\<close> projects are the fields the code reads from them.
\<close>

definition Session_populate ::
  "env \<Rightarrow> row list \<Rightarrow> row list \<Rightarrow> row list \<Rightarrow> string list option \<Rightarrow> row list \<Rightarrow> world \<Rightarrow> outcome"
where
  "Session_populate E monkey rig task_q dates neural_signal_processor w =
     (if \<not> list_all (\<lambda>table. length table = 1) [monkey, rig, task_q]
      then Inl (AssertionError, w)
      else
        or_raise (fetch1 neural_signal_processor) w (\<lambda>nsp.
        or_raise (item nsp ''hardware_category'') w (\<lambda>category.
          if category \<noteq> Str ''neural signal processor'' then Inl (AssertionError, w)
          else
            or_raise (fetch1 monkey) w (\<lambda>monkey_row.
            or_raise (fetch1 rig) w (\<lambda>rig_row.
            or_raise (fetch1 task_q) w (\<lambda>task_row.
            or_raise (fetch1 neural_signal_processor) w (\<lambda>nsp_row.
              let L0 = \<lparr>task = task_q,
                        monkey_key = proj [''monkey''] monkey_row,
                        rig_key = proj [''rig''] rig_row,
                        task_key = proj [''task'', ''task_version''] task_row,
                        nsp_key = proj [''hardware''] nsp_row,
                        raw_path = []\<rparr>
              in
              or_raise (item (monkey_key L0) ''monkey'') w (\<lambda>m.
              or_raise (item (rig_key L0) ''rig'') w (\<lambda>r.
              or_raise (item (task_key L0) ''task'') w (\<lambda>t.
              or_raise (getrawpath E m r t) w (\<lambda>path.
              or_raise (os_call (listdir E path)) w (\<lambda>listing.
                populate_dates E (L0\<lparr>raw_path := path\<rparr>)
                  (session_dates dates listing w) w))))))))))))"

section \<open>BehaviorRecording\<close>

text \<open>
  \<^verbatim>\<open>BehaviorRecording.make\<close> (lines 189 to 215), in two parts: what it fetches (the
  raw path of the session and the task controller, lines 191 to 197) and what it does
  with them (lines 199 to 215).  The summary file is whatever \<^verbatim>\<open>next(filter(...))\<close>
  gives: the first file of the listing that the pattern accepts.
\<close>

definition BehaviorRecording_fetch :: "env \<Rightarrow> row \<Rightarrow> world \<Rightarrow> error + (string \<times> val)" where
  "BehaviorRecording_fetch E key w =
     (case fetch1 (restrict (Session_tbl w) key) of
        Inl e \<Rightarrow> Inl e
      | Inr session_key \<Rightarrow>
         (case item session_key ''monkey'' of Inl e \<Rightarrow> Inl e | Inr m \<Rightarrow>
         (case item session_key ''rig'' of Inl e \<Rightarrow> Inl e | Inr r \<Rightarrow>
         (case item session_key ''task'' of Inl e \<Rightarrow> Inl e | Inr t \<Rightarrow>
         (case getrawpath E m r t of Inl e \<Rightarrow> Inl e | Inr path \<Rightarrow>
         (case item key ''session_date'' of Inl e \<Rightarrow> Inl e | Inr d \<Rightarrow>
         (case str d of Inl e \<Rightarrow> Inl e | Inr date \<Rightarrow>
         (case fetch1 (restrict (semijoin (Task_tbl w) (Session_tbl w)) session_key) of
            Inl e \<Rightarrow> Inl e
          | Inr task_row \<Rightarrow>
             (case item task_row ''task_controller_hardware'' of
                Inl e \<Rightarrow> Inl e
              | Inr task_controller_hardware \<Rightarrow>
                  Inr (path @ date, task_controller_hardware))))))))))"

definition BehaviorRecording_insert :: "env \<Rightarrow> string \<Rightarrow> val \<Rightarrow> row \<Rightarrow> world \<Rightarrow> outcome" where
  "BehaviorRecording_insert E session_raw_path task_controller_hardware key w =
     and_then
       (if task_controller_hardware = Str ''Speedgoat'' then
          (let speedgoat_path = session_raw_path @ ''/speedgoat/'' in
           or_raise (os_call (listdir E speedgoat_path)) w (\<lambda>speedgoat_files.
           or_raise (next_match search_summary speedgoat_files) w (\<lambda>summary_file.
             Inr (AList.update ''behavior_summary_file_path''
                    (Str (ensureglobal E (speedgoat_path @ summary_file))) key))))
        else Inr key)
       (\<lambda>key1. insert1 E BehaviorRecording
                  (AList.update ''behavior_sample_rate'' (Num 1000) key1) w)"

definition BehaviorRecording_make :: "env \<Rightarrow> row \<Rightarrow> world \<Rightarrow> outcome" where
  "BehaviorRecording_make E key w =
     or_raise (BehaviorRecording_fetch E key w) w (\<lambda>(session_raw_path, task_controller_hardware).
       BehaviorRecording_insert E session_raw_path task_controller_hardware key w)"

section \<open>EphysRecording\<close>

text \<open>\<^verbatim>\<open>int(x)\<close> of a float: the fraction is cut off, towards zero.\<close>

definition int_of_float :: "real \<Rightarrow> int" where
  "int_of_float x = (if 0 \<le> x then \<lfloor>x\<rfloor> else \<lceil>x\<rceil>)"

text \<open>
  The inner loop (lines 285 to 301) over \<^verbatim>\<open>enumerate(nsx_file.extended_headers)\<close>.  Each
  pass rebinds the variable \<open>key\<close> of the enclosing loop to a copy of \<open>primary_key\<close>,
  fills it in (\<open>channel_key\<close>) and inserts it; the value of the last pass is what the
  code after the loop sees.  The result is that variable with the world.
\<close>

definition channel_key :: "row \<Rightarrow> nat \<Rightarrow> elec \<Rightarrow> row" where
  "channel_key primary_key j elec =
     (let key1 = primary_key;
          key2 = AList.update ''channel_index'' (Num (int j)) key1;
          key3 = AList.update ''channel_id'' (Num (ElectrodeID elec)) key2
      in set_channel_label (ElectrodeLabel elec) key3)"

fun channel_loop ::
  "env \<Rightarrow> row \<Rightarrow> (nat \<times> elec) list \<Rightarrow> row \<Rightarrow> world \<Rightarrow> (error \<times> world) + (row \<times> world)"
where
  "channel_loop E primary_key [] key w = Inr (key, w)"
| "channel_loop E primary_key ((j, elec) # rest) key w =
     and_then (insert1 E EphysRecording_Channel (channel_key primary_key j elec) w) (\<lambda>w'.
       channel_loop E primary_key rest (channel_key primary_key j elec) w')"

text \<open>
  The outer loop (lines 263 to 304) over \<^verbatim>\<open>enumerate(nsx_path)\<close>: its body
  (\<open>file_body\<close>, lines 265 to 304), and the variable \<open>key\<close> threaded from one file to
  the next as the body leaves it.  Opening a file adds
  it to \<open>open_files\<close>; \<^verbatim>\<open>nsx_file.close()\<close>, the last statement of the body, removes
  the handle opened last for that path.  An exception leaves the loop at once.
\<close>

definition open_file :: "string \<Rightarrow> world \<Rightarrow> world" where
  "open_file pth w = w\<lparr>open_files := open_files w @ [pth]\<rparr>"

definition close_file :: "string \<Rightarrow> world \<Rightarrow> world" where
  "close_file pth w = w\<lparr>open_files := rev (remove1 pth (rev (open_files w)))\<rparr>"

definition file_body ::
  "env \<Rightarrow> nat \<Rightarrow> string \<Rightarrow> row \<Rightarrow> world \<Rightarrow> (error \<times> world) + (row \<times> world)"
where
  "file_body E i pth key w =
     (let key1 = AList.update ''ephys_file_id'' (Num (int i)) key;
          primary_key = key1
      in
      or_raise (case NsxFile E pth of None \<Rightarrow> Inl VendorError | Some f \<Rightarrow> Inr f) w (\<lambda>nsx_file.
        let w1 = open_file pth w in
        or_raise (case extended_headers nsx_file of [] \<Rightarrow> Inl IndexError | h # _ \<Rightarrow> Inr h) w1 (\<lambda>h0.
        or_raise (case getdata nsx_file (ElectrodeID h0) of
                    None \<Rightarrow> Inl VendorError | Some d \<Rightarrow> Inr d) w1 (\<lambda>nsx_data.
          let key2 = AList.update ''ephys_sample_rate''
                       (Num (int_of_float (samp_per_s nsx_data))) key1;
              key3 = AList.update ''ephys_duration'' (Flt (data_time_s nsx_data)) key2;
              key4 = AList.update ''ephys_file_path'' (Str (ensureglobal E pth)) key3
          in
          and_then (insert1 E EphysRecording key4 w1) (\<lambda>w2.
          and_then (channel_loop E primary_key (enumerate 0 (extended_headers nsx_file)) key4 w2)
            (\<lambda>(key5, w3). Inr (key5, close_file pth w3)))))))"

fun file_loop :: "env \<Rightarrow> (nat \<times> string) list \<Rightarrow> row \<Rightarrow> world \<Rightarrow> outcome" where
  "file_loop E [] key w = Inr w"
| "file_loop E ((i, pth) # rest) key w =
     and_then (file_body E i pth key w) (\<lambda>(key5, w'). file_loop E rest key5 w')"

text \<open>\<^verbatim>\<open>EphysRecording.make\<close> (lines 242 to 304): what it fetches, then the files.\<close>

definition EphysRecording_fetch :: "env \<Rightarrow> row \<Rightarrow> world \<Rightarrow> error + (string \<times> val)" where
  "EphysRecording_fetch E key w =
     (case fetch1 (restrict (Session_tbl w) key) of
        Inl e \<Rightarrow> Inl e
      | Inr session_key \<Rightarrow>
         (case item session_key ''monkey'' of Inl e \<Rightarrow> Inl e | Inr m \<Rightarrow>
         (case item session_key ''rig'' of Inl e \<Rightarrow> Inl e | Inr r \<Rightarrow>
         (case item session_key ''task'' of Inl e \<Rightarrow> Inl e | Inr t \<Rightarrow>
         (case getrawpath E m r t of Inl e \<Rightarrow> Inl e | Inr path \<Rightarrow>
         (case item session_key ''session_date'' of Inl e \<Rightarrow> Inl e | Inr d \<Rightarrow>
         (case str d of Inl e \<Rightarrow> Inl e | Inr date \<Rightarrow>
         (let session_hardware =
                join (restrict (Session_Hardware_tbl w) session_key) (equipment_Hardware_tbl w)
          in
          (case fetch1 (restrict session_hardware
                  [(''hardware_category'', Str ''neural signal processor'')]) of
             Inl e \<Rightarrow> Inl e
           | Inr hw_row \<Rightarrow>
              (case item hw_row ''hardware'' of
                 Inl e \<Rightarrow> Inl e
               | Inr neural_signal_processor \<Rightarrow>
                   Inr (path @ date, neural_signal_processor)))))))))))"

definition EphysRecording_insert :: "env \<Rightarrow> string \<Rightarrow> val \<Rightarrow> row \<Rightarrow> world \<Rightarrow> outcome" where
  "EphysRecording_insert E session_raw_path neural_signal_processor key w =
     (if neural_signal_processor = Str ''Cerebus'' then
        (let blackrock_path = session_raw_path @ ''/blackrock/'' in
         or_raise (os_call (listdir E blackrock_path)) w (\<lambda>blackrock_files.
           let nsx_files = filter search_nsx blackrock_files;
               nsx_path = map (\<lambda>f. blackrock_path @ f) nsx_files
           in file_loop E (enumerate 0 nsx_path) key w))
      else Inr w)"

definition EphysRecording_make :: "env \<Rightarrow> row \<Rightarrow> world \<Rightarrow> outcome" where
  "EphysRecording_make E key w =
     or_raise (EphysRecording_fetch E key w) w (\<lambda>(session_raw_path, neural_signal_processor).
       EphysRecording_insert E session_raw_path neural_signal_processor key w)"

section \<open>Scenarios\<close>

text \<open>
  Concrete catalogs and directory trees, for the examples below.  The Task table holds
  the contents the source gives it (lines 28 to 32); the hardware table holds the
  neural signal processor that \<^verbatim>\<open>populate\<close> takes by default.
\<close>

definition Task_row :: "string \<Rightarrow> string \<Rightarrow> string \<Rightarrow> string \<Rightarrow> string \<Rightarrow> string \<Rightarrow> string \<Rightarrow> string \<Rightarrow> row" where
  "Task_row t v h s sv g gv d =
     [(''task'', Str t), (''task_version'', Str v), (''task_controller_hardware'', Str h),
      (''task_controller_software'', Str s), (''task_controller_software_version'', Str sv),
      (''graphics'', Str g), (''graphics_version'', Str gv), (''task_description'', Str d)]"

definition Task_contents :: "row list" where
  "Task_contents =
     [Task_row ''pacman'' ''1.0'' ''Speedgoat'' ''Simulink'' [] ''Psychtoolbox'' ''3.0''
        ''1-dimensional force tracking'',
      Task_row ''two target'' ''1.0'' ''Speedgoat'' ''Simulink'' [] ''Unity 3D'' [] [],
      Task_row ''reaching'' ''1.0'' ''Speedgoat'' ''Simulink'' [] ''Psychtoolbox'' ''3.0'' []]"

definition Cerebus :: row where
  "Cerebus = [(''hardware'', Str ''Cerebus''),
              (''hardware_category'', Str ''neural signal processor'')]"

definition catalog :: world where
  "catalog = \<lparr>Session_tbl = [], Session_Hardware_tbl = [], Session_Notes_tbl = [],
               BehaviorRecording_tbl = [], EphysRecording_tbl = [],
               EphysRecording_Channel_tbl = [], Task_tbl = Task_contents,
               equipment_Hardware_tbl = [Cerebus], printed = [], open_files = []\<rparr>"

text \<open>A machine: its directories, its text files and its vendor files; the store takes every row.\<close>

definition machine ::
  "(string \<times> string list) list \<Rightarrow> (string \<times> string) list \<Rightarrow> (string \<times> nsx_file) list \<Rightarrow> env"
where
  "machine dirs texts nsxs =
     \<lparr>getlocalpath = ''/locker/'', ensureglobal = (\<lambda>p. p), listdir = map_of dirs,
      read_text = map_of texts, NsxFile = map_of nsxs, refuses = (\<lambda>t r w. False)\<rparr>"

definition raw :: string where
  "raw = ''/locker/Jumanji/pacman-task/cousteau/raw/''"

definition Cousteau :: "row list" where
  "Cousteau = [[(''monkey'', Str ''Cousteau'')]]"

definition Jumanji :: "row list" where
  "Jumanji = [[(''rig'', Str ''Jumanji'')]]"

definition pacman :: "row list" where
  "pacman = restrict Task_contents [(''task'', Str ''pacman'')]"

text \<open>Cousteau's session of 2021-01-01, as \<^verbatim>\<open>Session.populate\<close> records it.\<close>

definition session_2021_01_01 :: row where
  "session_2021_01_01 =
     [(''session_date'', Str ''2021-01-01''), (''monkey'', Str ''Cousteau''),
      (''rig'', Str ''Jumanji''), (''task'', Str ''pacman''), (''task_version'', Str ''1.0'')]"

definition catalog_with_session :: world where
  "catalog_with_session =
     catalog\<lparr>Session_tbl := [session_2021_01_01],
             Session_Hardware_tbl :=
               [[(''session_date'', Str ''2021-01-01''), (''monkey'', Str ''Cousteau''),
                 (''hardware'', Str ''Cerebus'')]]\<rparr>"

definition key_2021_01_01 :: row where
  "key_2021_01_01 = [(''session_date'', Str ''2021-01-01''), (''monkey'', Str ''Cousteau'')]"

text \<open>A vendor file with one electrode, sampled at 30 kHz for 12 s.\<close>

definition one_electrode :: "string \<Rightarrow> nsx_file" where
  "one_electrode label =
     \<lparr>extended_headers = [\<lparr>ElectrodeID = 1, ElectrodeLabel = label\<rparr>],
      getdata = (\<lambda>i. Some \<lparr>samp_per_s = 30000, data_time_s = 12\<rparr>)\<rparr>"

definition blackrock_dir :: string where
  "blackrock_dir = raw @ ''2021-01-01/blackrock/''"

definition two_files :: env where
  "two_files =
     machine [(blackrock_dir, [''foo_neu_001.ns5'', ''foo_neu_002.ns5''])] []
       [(blackrock_dir @ ''foo_neu_001.ns5'', one_electrode ''137''),
        (blackrock_dir @ ''foo_neu_002.ns5'', one_electrode ''weird'')]"

definition two_summaries :: env where
  "two_summaries =
     machine [(raw @ ''2021-01-01/speedgoat/'', [''a.summary'', ''b.summary''])] [] []"

text \<open>The five labels of the specification's example, in one vendor file.\<close>

definition five_labels :: env where
  "five_labels =
     machine [(blackrock_dir, [''foo_neu_001.ns5''])] []
       [(blackrock_dir @ ''foo_neu_001.ns5'',
         \<lparr>extended_headers =
            [\<lparr>ElectrodeID = 1, ElectrodeLabel = ''137''\<rparr>,
             \<lparr>ElectrodeID = 2, ElectrodeLabel = ''ainp3''\<rparr>,
             \<lparr>ElectrodeID = 3, ElectrodeLabel = ''ainp15''\<rparr>,
             \<lparr>ElectrodeID = 4, ElectrodeLabel = ''ainp16''\<rparr>,
             \<lparr>ElectrodeID = 5, ElectrodeLabel = ''weird''\<rparr>],
          getdata = (\<lambda>i. Some \<lparr>samp_per_s = 30000, data_time_s = 12\<rparr>)\<rparr>)]"

text \<open>The same machines with a store that refuses every Channel row.\<close>

definition refusing_channels :: "env \<Rightarrow> env" where
  "refusing_channels E = E\<lparr>refuses := (\<lambda>t r w. t = EphysRecording_Channel)\<rparr>"

text \<open>A speedgoat directory without a summary file.\<close>

definition no_summary :: env where
  "no_summary = machine [(raw @ ''2021-01-01/speedgoat/'', [''readme.txt''])] [] []"

text \<open>
  A raw directory with four dates and a stray entry: the first date is complete and
  has two notes files, the second lacks \<^verbatim>\<open>speedgoat\<close>, the third lacks \<^verbatim>\<open>blackrock\<close>, the
  fourth has no notes.
\<close>

definition four_dates :: env where
  "four_dates =
     machine
       [(raw, [''2021-01-04'', ''2021-01-02'', ''scratch'', ''2021-01-01'', ''2021-01-03'']),
        (raw @ ''2021-01-01/'', [''b_notes.txt'', ''a_notes.txt'', ''speedgoat'', ''blackrock'']),
        (raw @ ''2021-01-02/'', [''blackrock'', ''notes.txt'']),
        (raw @ ''2021-01-03/'', [''speedgoat'']),
        (raw @ ''2021-01-04/'', [''speedgoat'', ''blackrock''])]
       [(raw @ ''2021-01-01/b_notes.txt'', ''listed first''),
        (raw @ ''2021-01-01/a_notes.txt'', ''listed second''),
        (raw @ ''2021-01-02/notes.txt'', ''never read'')]
       []"

definition session_row :: "string \<Rightarrow> string \<Rightarrow> row" where
  "session_row date monkey =
     [(''session_date'', Str date), (''monkey'', Str monkey), (''rig'', Str ''Jumanji''),
      (''task'', Str ''pacman''), (''task_version'', Str ''1.0'')]"

definition hardware_row :: "string \<Rightarrow> string \<Rightarrow> row" where
  "hardware_row date monkey =
     [(''session_date'', Str date), (''monkey'', Str monkey), (''hardware'', Str ''Cerebus'')]"

text \<open>The catalog after \<^verbatim>\<open>Session.populate\<close> for Cousteau on \<open>four_dates\<close>.\<close>

definition catalog_four_dates :: world where
  "catalog_four_dates =
     catalog\<lparr>Session_tbl := [session_row ''2021-01-01'' ''Cousteau'',
                              session_row ''2021-01-04'' ''Cousteau''],
             Session_Hardware_tbl := [hardware_row ''2021-01-01'' ''Cousteau'',
                                       hardware_row ''2021-01-04'' ''Cousteau''],
             Session_Notes_tbl :=
               [[(''session_date'', Str ''2021-01-01''), (''monkey'', Str ''Cousteau''),
                 (''session_notes_id'', Num 0), (''session_notes'', Str ''listed first'')]],
             printed := [''Missing behavior files for session 2021-01-02'',
                         ''Missing ephys files for session 2021-01-03'',
                         ''Missing notes for session 2021-01-04'']\<rparr>"

text \<open>A catalog in which another monkey has a session on 2021-01-01.\<close>

definition catalog_other_monkey :: world where
  "catalog_other_monkey = catalog\<lparr>Session_tbl := [session_row ''2021-01-01'' ''Igor'']\<rparr>"

definition one_date :: env where
  "one_date =
     machine
       [(raw, [''2021-01-01'']),
        (raw @ ''2021-01-01/'', [''speedgoat'', ''blackrock''])] [] []"

text \<open>The local variables of \<^verbatim>\<open>Session.populate\<close> for Cousteau, Jumanji, pacman and Cerebus.\<close>

definition locals_cousteau :: populate_locals where
  "locals_cousteau =
     \<lparr>task = pacman, monkey_key = [(''monkey'', Str ''Cousteau'')],
      rig_key = [(''rig'', Str ''Jumanji'')],
      task_key = [(''task'', Str ''pacman''), (''task_version'', Str ''1.0'')],
      nsp_key = [(''hardware'', Str ''Cerebus'')], raw_path = raw\<rparr>"

section \<open>The words of the specification\<close>

text \<open>
  The form \<^verbatim>\<open>YYYY-MM-DD\<close> as the specification spells it: four digits, a hyphen, two
  digits, a hyphen, two digits, and nothing else.
\<close>

fun YYYY_MM_DD :: "string \<Rightarrow> bool" where
  "YYYY_MM_DD [y1, y2, y3, y4, h1, m1, m2, h2, d1, d2] =
     (digit y1 \<and> digit y2 \<and> digit y3 \<and> digit y4 \<and> h1 = CHR ''-'' \<and>
      digit m1 \<and> digit m2 \<and> h2 = CHR ''-'' \<and> digit d1 \<and> digit d2)"
| "YYYY_MM_DD _ = False"

section \<open>Properties\<close>

subsection \<open>What the patterns accept\<close>

lemma re_search_iff: "re_search m s \<longleftrightarrow> (\<exists>pre post. s = pre @ post \<and> m post)"
proof (induction s)
  case Nil
  then show ?case by simp
next
  case (Cons c cs)
  show ?case
  proof
    assume "re_search m (c # cs)"
    then consider "m (c # cs)" | "re_search m cs" by auto
    then show "\<exists>pre post. c # cs = pre @ post \<and> m post"
    proof cases
      case 1
      then have "c # cs = [] @ (c # cs) \<and> m (c # cs)" by simp
      then show ?thesis by blast
    next
      case 2
      with Cons obtain pre post where "cs = pre @ post" "m post" by blast
      then have "c # cs = (c # pre) @ post \<and> m post" by simp
      then show ?thesis by blast
    qed
  next
    assume "\<exists>pre post. c # cs = pre @ post \<and> m post"
    then obtain pre post where p: "c # cs = pre @ post" "m post" by blast
    show "re_search m (c # cs)"
    proof (cases pre)
      case Nil
      with p have "m (c # cs)" by simp
      then show ?thesis by simp
    next
      case (Cons a pre')
      with p have "cs = pre' @ post" by simp
      with p Cons.IH show ?thesis by auto
    qed
  qed
qed

lemma date_at_iff: "date_at s \<longleftrightarrow> (\<exists>ymd post. s = ymd @ post \<and> YYYY_MM_DD ymd)"
proof
  assume "date_at s"
  then obtain y1 y2 y3 y4 h1 m1 m2 h2 d1 d2 rest where
    s: "s = [y1, y2, y3, y4, h1, m1, m2, h2, d1, d2] @ rest"
    and y: "YYYY_MM_DD [y1, y2, y3, y4, h1, m1, m2, h2, d1, d2]"
    by (auto elim!: date_at.elims)
  then show "\<exists>ymd post. s = ymd @ post \<and> YYYY_MM_DD ymd" by blast
next
  assume "\<exists>ymd post. s = ymd @ post \<and> YYYY_MM_DD ymd"
  then obtain ymd post where "s = ymd @ post" "YYYY_MM_DD ymd" by blast
  then show "date_at s" by (auto elim!: YYYY_MM_DD.elims)
qed

lemma search_date_iff:
  "search_date d \<longleftrightarrow> (\<exists>pre ymd post. d = pre @ ymd @ post \<and> YYYY_MM_DD ymd)"
  unfolding search_date_def re_search_iff date_at_iff by blast

lemma candidate_dates_default:
  "candidate_dates None listing = filter search_date (sort listing)"
  by (simp add: candidate_dates_def dates_arg_def)

subsection \<open>The Session Scanner\<close>

text \<open>
  C7, as the code has it.  With no date list, every entry the scanner returns is an
  entry of the listing that contains a text of the form \<^verbatim>\<open>YYYY-MM-DD\<close> (the pattern is
  searched for in the name, not matched against the whole of it), the entries come in
  lexicographic order, and a directory holding \<^verbatim>\<open>2021-01-01\<close>, \<^verbatim>\<open>2021-01-02\<close> and
  \<^verbatim>\<open>scratch\<close> gives exactly the two dates, in that order.
\<close>

theorem C7_scanner_returns_sorted_dates:
  "sorted (session_dates None listing w) \<and>
   (\<forall>d \<in> set (session_dates None listing w).
      d \<in> set listing \<and> (\<exists>pre ymd post. d = pre @ ymd @ post \<and> YYYY_MM_DD ymd)) \<and>
   session_dates None [''2021-01-02'', ''scratch'', ''2021-01-01''] catalog
     = [''2021-01-01'', ''2021-01-02'']"
proof (intro conjI)
  show "sorted (session_dates None listing w)"
    by (simp add: session_dates_def candidate_dates_default sorted_wrt_filter)
  show "\<forall>d \<in> set (session_dates None listing w).
      d \<in> set listing \<and> (\<exists>pre ymd post. d = pre @ ymd @ post \<and> YYYY_MM_DD ymd)"
    by (auto simp: session_dates_def candidate_dates_default search_date_iff)
  show "session_dates None [''2021-01-02'', ''scratch'', ''2021-01-01''] catalog
     = [''2021-01-01'', ''2021-01-02'']"
    by (simp add: session_dates_def candidate_dates_default search_date_def digit_def
        restrict_def catalog_def)
qed

theorem C7_scanner_returns_sorted_dates_witness:
  "''2021-01-02'' \<in> set (session_dates None [''2021-01-02'', ''scratch'', ''2021-01-01''] catalog) \<and>
   ''2021-01-02'' \<in> set [''2021-01-02'', ''scratch'', ''2021-01-01''] \<and>
   (\<exists>pre ymd post. ''2021-01-02'' = pre @ ymd @ post \<and> YYYY_MM_DD ymd)"
  using C7_scanner_returns_sorted_dates [of "[''2021-01-02'', ''scratch'', ''2021-01-01'']" catalog]
  by simp

text \<open>
  C7 as it is worded fails: an entry that is not of the form \<^verbatim>\<open>YYYY-MM-DD\<close> but
  contains such a text is returned.
\<close>

theorem C7_counterexample:
  "session_dates None [''backup-2021-01-01''] catalog = [''backup-2021-01-01''] \<and>
   \<not> YYYY_MM_DD ''backup-2021-01-01''"
  by (simp add: session_dates_def candidate_dates_default search_date_def digit_def
      restrict_def catalog_def)

text \<open>
  C8.  The date filter is a search: with no date list, an entry of the listing is a
  candidate exactly when a text of the form \<^verbatim>\<open>YYYY-MM-DD\<close> occurs somewhere in its
  name; \<^verbatim>\<open>backup-2021-01-01\<close> and \<^verbatim>\<open>2021-01-015\<close> are candidates.
\<close>

theorem C8_date_filter_is_substring_test:
  "(d \<in> set (candidate_dates None listing) \<longleftrightarrow>
      d \<in> set listing \<and> (\<exists>pre ymd post. d = pre @ ymd @ post \<and> YYYY_MM_DD ymd)) \<and>
   (YYYY_MM_DD ymd \<and> pre @ ymd @ post \<in> set listing
      \<longrightarrow> pre @ ymd @ post \<in> set (candidate_dates None listing)) \<and>
   candidate_dates None [''scratch'', ''backup-2021-01-01'', ''2021-01-015'']
     = [''2021-01-015'', ''backup-2021-01-01'']"
proof (intro conjI)
  show "d \<in> set (candidate_dates None listing) \<longleftrightarrow>
      d \<in> set listing \<and> (\<exists>pre ymd post. d = pre @ ymd @ post \<and> YYYY_MM_DD ymd)"
    by (auto simp: candidate_dates_default search_date_iff)
  show "YYYY_MM_DD ymd \<and> pre @ ymd @ post \<in> set listing
      \<longrightarrow> pre @ ymd @ post \<in> set (candidate_dates None listing)"
    using search_date_iff by (auto simp: candidate_dates_default)
  show "candidate_dates None [''scratch'', ''backup-2021-01-01'', ''2021-01-015'']
     = [''2021-01-015'', ''backup-2021-01-01'']"
    by (simp add: candidate_dates_default search_date_def digit_def)
qed

theorem C8_date_filter_is_substring_test_witness:
  "YYYY_MM_DD ''2021-01-01'' \<and>
   ''backup-'' @ ''2021-01-01'' @ [] \<in> set [''scratch'', ''backup-2021-01-01''] \<and>
   ''backup-'' @ ''2021-01-01'' @ [] \<in> set (candidate_dates None [''scratch'', ''backup-2021-01-01''])"
  using C8_date_filter_is_substring_test
    [of "''scratch''" "[''scratch'', ''backup-2021-01-01'']" "''2021-01-01''" "''backup-''" "[]",
     THEN conjunct2, THEN conjunct1]
  by (simp add: digit_def)

text \<open>
  C9.  An empty date list is the same as no date list: \<^verbatim>\<open>if dates:\<close> is false for
  both, so the candidates are the entries that the pattern accepts, over the whole
  listing, and the run is the same.
\<close>

theorem C9_empty_date_list_is_no_date_list:
  "Session_populate E monkey rig task_q (Some []) nsp w
     = Session_populate E monkey rig task_q None nsp w \<and>
   session_dates (Some []) listing w = session_dates None listing w \<and>
   candidate_dates (Some []) listing = filter search_date (sort listing) \<and>
   candidate_dates (Some []) [''2021-01-02'', ''scratch'', ''2021-01-01'']
     = [''2021-01-01'', ''2021-01-02'']"
proof -
  have c: "candidate_dates (Some []) listing' = candidate_dates None listing'" for listing'
    by (simp add: candidate_dates_def dates_arg_def)
  have s: "session_dates (Some []) listing' w' = session_dates None listing' w'" for listing' w'
    by (simp add: session_dates_def c)
  have p: "Session_populate E monkey rig task_q (Some []) nsp w
     = Session_populate E monkey rig task_q None nsp w"
    unfolding Session_populate_def s ..
  have e: "candidate_dates (Some []) [''2021-01-02'', ''scratch'', ''2021-01-01'']
     = [''2021-01-01'', ''2021-01-02'']"
    by (simp add: c candidate_dates_default search_date_def digit_def)
  show ?thesis
    using p s c e by (simp only: candidate_dates_default simp_thms)
qed

subsection \<open>Evaluation of the scenarios\<close>

lemmas run_defs = or_raise_def and_then_def os_call_def fetch1_def restrict_def agree_def
  item_def str_def lower_def lower_char_def getrawpath_def semijoin_def join_def
  insert1_def next_match_def next_eq_def print_def proj_def

lemmas scenario_defs = catalog_def catalog_with_session_def machine_def raw_def Cousteau_def
  Jumanji_def pacman_def session_2021_01_01_def key_2021_01_01_def one_electrode_def
  blackrock_dir_def two_files_def two_summaries_def Task_contents_def Task_row_def Cerebus_def
  five_labels_def refusing_channels_def no_summary_def four_dates_def session_row_def
  hardware_row_def catalog_four_dates_def catalog_other_monkey_def one_date_def locals_cousteau_def

lemmas ephys_defs = EphysRecording_make_def EphysRecording_insert_def EphysRecording_fetch_def
  file_body_def Let_def
  search_nsx_def nsx_alt_def digit_def newline_def channel_key_def set_channel_label_def
  search_ainp_def open_file_def close_file_def int_of_float_def enumerate_eq_zip

subsection \<open>Channel labels\<close>

lemma search_leading_digit_iff:
  "search_leading_digit l \<longleftrightarrow> (\<exists>c cs. l = c # cs \<and> digit c)"
  by (cases l) auto

lemma ainp_at_iff:
  "ainp_at s \<longleftrightarrow>
     (\<exists>n. n \<in> set ''12345678'' \<and> (s = ''ainp'' @ [n] \<or> s = ''ainp'' @ [n, newline]))"
proof
  assume h: "ainp_at s"
  then obtain a i n p c rest where s: "s = a # i # n # p # c # rest"
    and c: "a = CHR ''a'' \<and> i = CHR ''i'' \<and> n = CHR ''n'' \<and> p = CHR ''p'' \<and>
      c \<in> set ''12345678'' \<and> (rest = [] \<or> rest = [newline])"
    by (rule ainp_at.elims(2)) blast
  from c have "c \<in> set ''12345678''" by blast
  moreover from s c have "s = ''ainp'' @ [c] \<or> s = ''ainp'' @ [c, newline]" by auto
  ultimately show "\<exists>n. n \<in> set ''12345678'' \<and> (s = ''ainp'' @ [n] \<or> s = ''ainp'' @ [n, newline])"
    by blast
next
  assume "\<exists>n. n \<in> set ''12345678'' \<and> (s = ''ainp'' @ [n] \<or> s = ''ainp'' @ [n, newline])"
  then obtain n where n: "n \<in> set ''12345678''" and "s = ''ainp'' @ [n] \<or> s = ''ainp'' @ [n, newline]"
    by blast
  then consider "s = CHR ''a'' # CHR ''i'' # CHR ''n'' # CHR ''p'' # n # []"
    | "s = CHR ''a'' # CHR ''i'' # CHR ''n'' # CHR ''p'' # n # [newline]" by auto
  then show "ainp_at s"
  proof cases
    case 1
    show ?thesis unfolding 1 ainp_at.simps(1) using n by blast
  next
    case 2
    show ?thesis unfolding 2 ainp_at.simps(1) using n by blast
  qed
qed

lemma search_ainp_iff:
  "search_ainp l \<longleftrightarrow>
     (\<exists>pre n. n \<in> set ''12345678'' \<and>
        (l = pre @ ''ainp'' @ [n] \<or> l = pre @ ''ainp'' @ [n, newline]))"
  unfolding search_ainp_def re_search_iff ainp_at_iff by blast

lemma channel_loop_rows:
  "channel_loop E pk js key w = Inr (key', w') \<Longrightarrow>
   EphysRecording_Channel_tbl w' =
     EphysRecording_Channel_tbl w @ map (\<lambda>(j, e). channel_key pk j e) js"
proof (induction js arbitrary: key w)
  case Nil
  then show ?case by simp
next
  case (Cons a js)
  obtain j e where a: "a = (j, e)" by (cases a)
  from Cons.prems a obtain w1 where
    i: "insert1 E EphysRecording_Channel (channel_key pk j e) w = Inr w1" and
    r: "channel_loop E pk js (channel_key pk j e) w1 = Inr (key', w')"
    by (auto simp: and_then_def split: sum.splits)
  from i have "EphysRecording_Channel_tbl w1 = EphysRecording_Channel_tbl w @ [channel_key pk j e]"
    by (auto simp: insert1_def split: if_splits)
  with Cons.IH [OF r] a show ?case by simp
qed

text \<open>
  C4, as the code has it.  The label is given by the first test of the chain that
  accepts it: a label that starts with a digit is \<open>brain\<close>; a label that does not, and
  ends in \<^verbatim>\<open>ainpN\<close> with N from 1 to 8, is \<open>emg\<close>; \<^verbatim>\<open>ainp15\<close> is \<open>stim\<close>; \<^verbatim>\<open>ainp16\<close> is
  \<open>sync\<close>.  A label that no test accepts (the \<open>emg\<close> test also accepts one newline after
  the digit) gets no label from the chain: the dictionary is left as it was.  The
  Channel row is inserted all the same, one row for each header; the five labels of
  the specification's example give \<open>brain\<close>, \<open>emg\<close>, \<open>stim\<close>, \<open>sync\<close> and a row without a
  label, numbered from zero.
\<close>

theorem C4_label_by_first_accepting_test:
  "(digit c \<longrightarrow>
      set_channel_label (c # cs) key = AList.update ''channel_label'' (Str ''brain'') key) \<and>
   (n \<in> set ''12345678'' \<and> \<not> digit (hd (pre @ ''ainp'' @ [n])) \<longrightarrow>
      set_channel_label (pre @ ''ainp'' @ [n]) key
        = AList.update ''channel_label'' (Str ''emg'') key) \<and>
   set_channel_label ''ainp15'' key = AList.update ''channel_label'' (Str ''stim'') key \<and>
   set_channel_label ''ainp16'' key = AList.update ''channel_label'' (Str ''sync'') key \<and>
   (\<not> (\<exists>c cs. l = c # cs \<and> digit c) \<and>
    \<not> (\<exists>pre n. n \<in> set ''12345678'' \<and>
           (l = pre @ ''ainp'' @ [n] \<or> l = pre @ ''ainp'' @ [n, newline])) \<and>
    l \<noteq> ''ainp15'' \<and> l \<noteq> ''ainp16'' \<longrightarrow>
      set_channel_label l key = key) \<and>
   (channel_loop E pk js k w = Inr (k', w') \<longrightarrow>
      EphysRecording_Channel_tbl w' =
        EphysRecording_Channel_tbl w @ map (\<lambda>(j, e). channel_key pk j e) js) \<and>
   (case EphysRecording_make five_labels key_2021_01_01 catalog_with_session of
      Inl _ \<Rightarrow> False
    | Inr w' \<Rightarrow>
        map (\<lambda>r. (map_of r ''channel_index'', map_of r ''channel_label''))
          (EphysRecording_Channel_tbl w') =
        [(Some (Num 0), Some (Str ''brain'')), (Some (Num 1), Some (Str ''emg'')),
         (Some (Num 2), Some (Str ''stim'')), (Some (Num 3), Some (Str ''sync'')),
         (Some (Num 4), None)])"
proof (intro conjI impI)
  show "set_channel_label (c # cs) key = AList.update ''channel_label'' (Str ''brain'') key"
    if "digit c"
    using that by (simp add: set_channel_label_def)
  show "set_channel_label (pre @ ''ainp'' @ [n]) key
        = AList.update ''channel_label'' (Str ''emg'') key"
    if h: "n \<in> set ''12345678'' \<and> \<not> digit (hd (pre @ ''ainp'' @ [n]))"
  proof -
    have "search_ainp (pre @ ''ainp'' @ [n])"
      unfolding search_ainp_iff using h by blast
    moreover have "\<not> search_leading_digit (pre @ ''ainp'' @ [n])"
      using h by (cases pre) auto
    ultimately show ?thesis by (simp add: set_channel_label_def)
  qed
  show "set_channel_label ''ainp15'' key = AList.update ''channel_label'' (Str ''stim'') key"
    by (simp add: set_channel_label_def search_ainp_def digit_def newline_def)
  show "set_channel_label ''ainp16'' key = AList.update ''channel_label'' (Str ''sync'') key"
    by (simp add: set_channel_label_def search_ainp_def digit_def newline_def)
  show "set_channel_label l key = key"
    if "\<not> (\<exists>c cs. l = c # cs \<and> digit c) \<and>
        \<not> (\<exists>pre n. n \<in> set ''12345678'' \<and>
           (l = pre @ ''ainp'' @ [n] \<or> l = pre @ ''ainp'' @ [n, newline])) \<and>
        l \<noteq> ''ainp15'' \<and> l \<noteq> ''ainp16''"
  proof -
    have a: "\<not> search_leading_digit l"
      unfolding search_leading_digit_iff using that by blast
    have b: "\<not> search_ainp l"
      unfolding search_ainp_iff using that by blast
    from that have "l \<noteq> ''ainp15''" "l \<noteq> ''ainp16''" by blast+
    with a b show ?thesis by (simp add: set_channel_label_def)
  qed
  show "EphysRecording_Channel_tbl w' =
        EphysRecording_Channel_tbl w @ map (\<lambda>(j, e). channel_key pk j e) js"
    if "channel_loop E pk js k w = Inr (k', w')"
    using that by (rule channel_loop_rows)
  show "case EphysRecording_make five_labels key_2021_01_01 catalog_with_session of
      Inl _ \<Rightarrow> False
    | Inr w' \<Rightarrow>
        map (\<lambda>r. (map_of r ''channel_index'', map_of r ''channel_label''))
          (EphysRecording_Channel_tbl w') =
        [(Some (Num 0), Some (Str ''brain'')), (Some (Num 1), Some (Str ''emg'')),
         (Some (Num 2), Some (Str ''stim'')), (Some (Num 3), Some (Str ''sync'')),
         (Some (Num 4), None)]"
    by (simp add: ephys_defs run_defs scenario_defs)
qed

theorem C4_label_by_first_accepting_test_witness:
  "digit CHR ''1'' \<and>
   set_channel_label ''137'' [] = AList.update ''channel_label'' (Str ''brain'') [] \<and>
   (CHR ''3'' \<in> set ''12345678'' \<and> \<not> digit (hd ([] @ ''ainp'' @ ''3''))) \<and>
   set_channel_label ([] @ ''ainp'' @ ''3'') [] = AList.update ''channel_label'' (Str ''emg'') [] \<and>
   \<not> (\<exists>c cs. ''weird'' = c # cs \<and> digit c) \<and>
   \<not> (\<exists>pre n. n \<in> set ''12345678'' \<and>
          (''weird'' = pre @ ''ainp'' @ [n] \<or> ''weird'' = pre @ ''ainp'' @ [n, newline])) \<and>
   set_channel_label ''weird'' [] = [] \<and>
   channel_loop five_labels [] [(0, \<lparr>ElectrodeID = 5, ElectrodeLabel = ''weird''\<rparr>)] [] catalog
     = Inr ([(''channel_index'', Num 0), (''channel_id'', Num 5)],
            add_row EphysRecording_Channel [(''channel_index'', Num 0), (''channel_id'', Num 5)]
              catalog) \<and>
   EphysRecording_Channel_tbl
       (add_row EphysRecording_Channel [(''channel_index'', Num 0), (''channel_id'', Num 5)]
          catalog)
     = EphysRecording_Channel_tbl catalog @
         map (\<lambda>(j, e). channel_key [] j e) [(0, \<lparr>ElectrodeID = 5, ElectrodeLabel = ''weird''\<rparr>)]"
proof -
  note T = C4_label_by_first_accepting_test
    [where c = "CHR ''1''" and cs = "''37''" and key = "[]" and n = "CHR ''3''" and pre = "[]"
       and l = "''weird''" and E = five_labels and pk = "[]"
       and js = "[(0, \<lparr>ElectrodeID = 5, ElectrodeLabel = ''weird''\<rparr>)]" and k = "[]"
       and w = catalog and k' = "[(''channel_index'', Num 0), (''channel_id'', Num 5)]"
       and w' = "add_row EphysRecording_Channel
                   [(''channel_index'', Num 0), (''channel_id'', Num 5)] catalog"]
  have d: "digit CHR ''1''" by (simp add: digit_def)
  have b: "set_channel_label ''137'' [] = AList.update ''channel_label'' (Str ''brain'') []"
    by (rule T [THEN conjunct1, THEN mp, OF d])
  have n: "CHR ''3'' \<in> set ''12345678'' \<and> \<not> digit (hd ([] @ ''ainp'' @ ''3''))"
    by (simp add: digit_def)
  have e: "set_channel_label ([] @ ''ainp'' @ ''3'') []
             = AList.update ''channel_label'' (Str ''emg'') []"
    by (rule T [THEN conjunct2, THEN conjunct1, THEN mp, OF n])
  have "\<not> search_leading_digit ''weird''" by (simp add: digit_def)
  then have w1: "\<not> (\<exists>c cs. ''weird'' = c # cs \<and> digit c)"
    unfolding search_leading_digit_iff .
  have "\<not> search_ainp ''weird''" by (simp add: search_ainp_def)
  then have w2: "\<not> (\<exists>pre n. n \<in> set ''12345678'' \<and>
          (''weird'' = pre @ ''ainp'' @ [n] \<or> ''weird'' = pre @ ''ainp'' @ [n, newline]))"
    unfolding search_ainp_iff .
  have w3: "''weird'' \<noteq> ''ainp15'' \<and> ''weird'' \<noteq> ''ainp16''" by simp
  have k: "set_channel_label ''weird'' [] = []"
    by (rule T [THEN conjunct2, THEN conjunct2, THEN conjunct2, THEN conjunct2, THEN conjunct1,
          THEN mp, OF conjI [OF w1 conjI [OF w2 w3]]])
  have c: "channel_loop five_labels [] [(0, \<lparr>ElectrodeID = 5, ElectrodeLabel = ''weird''\<rparr>)] []
             catalog
     = Inr ([(''channel_index'', Num 0), (''channel_id'', Num 5)],
            add_row EphysRecording_Channel [(''channel_index'', Num 0), (''channel_id'', Num 5)]
              catalog)"
    by (simp add: ephys_defs run_defs scenario_defs)
  have r: "EphysRecording_Channel_tbl
       (add_row EphysRecording_Channel [(''channel_index'', Num 0), (''channel_id'', Num 5)]
          catalog)
     = EphysRecording_Channel_tbl catalog @
         map (\<lambda>(j, e). channel_key [] j e) [(0, \<lparr>ElectrodeID = 5, ElectrodeLabel = ''weird''\<rparr>)]"
    by (rule T [THEN conjunct2, THEN conjunct2, THEN conjunct2, THEN conjunct2, THEN conjunct2,
          THEN conjunct1, THEN mp, OF c])
  show ?thesis
    by (intro conjI) (rule d b n [THEN conjunct1] n [THEN conjunct2] e w1 w2 k c r)+
qed

text \<open>
  C4 as it is worded fails: \<^verbatim>\<open>1ainp3\<close> ends in \<^verbatim>\<open>ainp3\<close> and is labelled \<open>brain\<close>, since
  the test for a leading digit comes first.
\<close>

theorem C4_counterexample:
  "''1ainp3'' = ''1'' @ ''ainp'' @ ''3'' \<and>
   set_channel_label ''1ainp3'' [] = [(''channel_label'', Str ''brain'')] \<and>
   set_channel_label ''1ainp3'' [] \<noteq> [(''channel_label'', Str ''emg'')]"
  by (simp add: set_channel_label_def digit_def)

subsection \<open>The files of a recording\<close>

lemma insert1_open_files:
  "insert1 E t r w = Inr w' \<Longrightarrow> open_files w' = open_files w"
  by (cases t) (auto simp: insert1_def split: if_splits)

lemma insert1_error:
  "insert1 E t r w = Inl (e, w') \<Longrightarrow> e = InsertError \<and> w' = w"
  by (auto simp: insert1_def split: if_splits)

lemma channel_loop_open_files:
  "channel_loop E pk js key w = Inr (key', w') \<Longrightarrow> open_files w' = open_files w"
proof (induction js arbitrary: key w)
  case Nil
  then show ?case by simp
next
  case (Cons a js)
  obtain j e where a: "a = (j, e)" by (cases a)
  from Cons.prems a obtain w1 where
    i: "insert1 E EphysRecording_Channel (channel_key pk j e) w = Inr w1" and
    r: "channel_loop E pk js (channel_key pk j e) w1 = Inr (key', w')"
    by (auto simp: and_then_def split: sum.splits)
  from Cons.IH [OF r] insert1_open_files [OF i] show ?case by simp
qed

lemma channel_loop_error:
  "channel_loop E pk js key w = Inl (e, w') \<Longrightarrow> e = InsertError \<and> open_files w' = open_files w"
proof (induction js arbitrary: key w)
  case Nil
  then show ?case by simp
next
  case (Cons a js)
  obtain j el where a: "a = (j, el)" by (cases a)
  show ?case
  proof (cases "insert1 E EphysRecording_Channel (channel_key pk j el) w")
    case (Inl x)
    with Cons.prems a have "x = (e, w')" by (simp add: and_then_def)
    with Inl insert1_error show ?thesis by blast
  next
    case (Inr w1)
    with Cons.prems a have "channel_loop E pk js (channel_key pk j el) w1 = Inl (e, w')"
      by (simp add: and_then_def)
    from Cons.IH [OF this] insert1_open_files [OF Inr] show ?thesis by simp
  qed
qed

lemma open_close: "open_files w3 = open_files w @ [pth] \<Longrightarrow> open_files (close_file pth w3) = open_files w"
  by (simp add: close_file_def)

lemma file_body_closes:
  assumes "file_body E i pth key w = Inr (key', w')"
  shows "open_files w' = open_files w"
proof -
  from assms obtain r pk js w2 w3 where
    i: "insert1 E EphysRecording r (open_file pth w) = Inr w2" and
    c: "channel_loop E pk js r w2 = Inr (key', w3)" and
    w': "w' = close_file pth w3"
    unfolding file_body_def Let_def or_raise_def and_then_def
    by (auto simp del: channel_loop.simps
        split: option.splits list.splits sum.splits prod.splits)
  have "open_files w3 = open_files w @ [pth]"
    using channel_loop_open_files [OF c] insert1_open_files [OF i] by (simp add: open_file_def)
  with w' show ?thesis by (simp add: open_close)
qed

lemma file_body_leaves_open:
  assumes "file_body E i pth key w = Inl (InsertError, w')"
  shows "open_files w' = open_files w @ [pth]"
proof -
  from assms consider
    (ins) r where "insert1 E EphysRecording r (open_file pth w) = Inl (InsertError, w')"
  | (chan) r pk js w2 where "insert1 E EphysRecording r (open_file pth w) = Inr w2"
       "channel_loop E pk js r w2 = Inl (InsertError, w')"
    unfolding file_body_def Let_def or_raise_def and_then_def
    by (auto simp del: channel_loop.simps
        split: option.splits list.splits sum.splits prod.splits)
  then show ?thesis
  proof cases
    case ins
    from insert1_error [OF this] show ?thesis by (simp add: open_file_def)
  next
    case chan
    from channel_loop_error [OF chan(2)] insert1_open_files [OF chan(1)]
    show ?thesis by (simp add: open_file_def)
  qed
qed

lemma file_loop_closes:
  "file_loop E fs key w = Inr w' \<Longrightarrow> open_files w' = open_files w"
proof (induction fs arbitrary: key w)
  case Nil
  then show ?case by simp
next
  case (Cons a fs)
  obtain i pth where a: "a = (i, pth)" by (cases a)
  from Cons.prems a obtain key5 w1 where
    b: "file_body E i pth key w = Inr (key5, w1)" and
    f: "file_loop E fs key5 w1 = Inr w'"
    by (auto simp: and_then_def split: sum.splits)
  from Cons.IH [OF f] file_body_closes [OF b] show ?case by simp
qed

lemma file_loop_leaves_open:
  "file_loop E fs key w = Inl (InsertError, w') \<Longrightarrow>
   \<exists>pth \<in> snd ` set fs. open_files w' = open_files w @ [pth]"
proof (induction fs arbitrary: key w)
  case Nil
  then show ?case by simp
next
  case (Cons a fs)
  obtain i pth where a: "a = (i, pth)" by (cases a)
  show ?case
  proof (cases "file_body E i pth key w")
    case (Inl x)
    with Cons.prems a have "file_body E i pth key w = Inl (InsertError, w')"
      by (simp add: and_then_def)
    from file_body_leaves_open [OF this] a show ?thesis by simp
  next
    case (Inr y)
    obtain key5 w1 where y: "y = (key5, w1)" by (cases y)
    with Inr Cons.prems a have f: "file_loop E fs key5 w1 = Inl (InsertError, w')"
      by (simp add: and_then_def)
    from Inr y have "open_files w1 = open_files w" by (simp add: file_body_closes)
    with Cons.IH [OF f] show ?thesis by auto
  qed
qed
lemma fetch1_error [simp]: "fetch1 q \<noteq> Inl InsertError"
  by (simp add: fetch1_def split: list.splits)

lemma item_error [simp]: "item d k \<noteq> Inl InsertError"
  by (simp add: item_def split: option.splits)

lemma str_error [simp]: "str v \<noteq> Inl InsertError"
  by (simp add: str_def split: val.splits)

lemma lower_error [simp]: "lower v \<noteq> Inl InsertError"
  by (simp add: lower_def split: val.splits)

lemma getrawpath_error [simp]: "getrawpath E m r t \<noteq> Inl InsertError"
  by (auto simp: getrawpath_def split: sum.splits val.splits)

lemma EphysRecording_fetch_error: "EphysRecording_fetch E key w \<noteq> Inl InsertError"
  by (auto simp: EphysRecording_fetch_def Let_def split: sum.splits)

text \<open>
  C5, as the code has it.  \<^verbatim>\<open>nsx_file.close()\<close> is the last statement of the loop body
  and nothing guards it: when \<^verbatim>\<open>make\<close> returns, every file it opened is closed again;
  when an insertion raises, the exception leaves \<^verbatim>\<open>make\<close> with the file in hand still
  open.
\<close>

theorem C5_files_closed_unless_insert_raises:
  "(EphysRecording_make E key w = Inr w' \<longrightarrow> open_files w' = open_files w) \<and>
   (EphysRecording_make E key w = Inl (InsertError, w') \<longrightarrow>
      (\<exists>pth. open_files w' = open_files w @ [pth]))"
proof (intro conjI impI)
  assume m: "EphysRecording_make E key w = Inr w'"
  then obtain p v where "EphysRecording_insert E p v key w = Inr w'"
    by (auto simp: EphysRecording_make_def or_raise_def split: sum.splits)
  then show "open_files w' = open_files w"
    by (auto simp: EphysRecording_insert_def or_raise_def os_call_def Let_def
        split: if_splits option.splits dest: file_loop_closes)
next
  assume m: "EphysRecording_make E key w = Inl (InsertError, w')"
  then obtain p v where "EphysRecording_insert E p v key w = Inl (InsertError, w')"
    using EphysRecording_fetch_error [of E key w]
    by (auto simp: EphysRecording_make_def or_raise_def split: sum.splits)
  then obtain fs where "file_loop E fs key w = Inl (InsertError, w')"
    by (auto simp: EphysRecording_insert_def or_raise_def os_call_def Let_def
        split: if_splits option.splits)
  from file_loop_leaves_open [OF this]
  show "\<exists>pth. open_files w' = open_files w @ [pth]" by blast
qed

theorem C5_files_closed_unless_insert_raises_witness:
  "EphysRecording_make two_files key_2021_01_01 catalog_with_session
     = Inr (projr (EphysRecording_make two_files key_2021_01_01 catalog_with_session)) \<and>
   open_files (projr (EphysRecording_make two_files key_2021_01_01 catalog_with_session))
     = open_files catalog_with_session \<and>
   EphysRecording_make (refusing_channels two_files) key_2021_01_01 catalog_with_session
     = Inl (InsertError,
            snd (projl (EphysRecording_make (refusing_channels two_files) key_2021_01_01
                          catalog_with_session))) \<and>
   (\<exists>pth. open_files (snd (projl (EphysRecording_make (refusing_channels two_files)
                                   key_2021_01_01 catalog_with_session)))
            = open_files catalog_with_session @ [pth])"
proof -
  have a: "EphysRecording_make two_files key_2021_01_01 catalog_with_session
     = Inr (projr (EphysRecording_make two_files key_2021_01_01 catalog_with_session))"
    by (simp add: ephys_defs run_defs scenario_defs)
  have b: "EphysRecording_make (refusing_channels two_files) key_2021_01_01 catalog_with_session
     = Inl (InsertError,
            snd (projl (EphysRecording_make (refusing_channels two_files) key_2021_01_01
                          catalog_with_session)))"
    by (simp add: ephys_defs run_defs scenario_defs)
  note T = C5_files_closed_unless_insert_raises
  show ?thesis
    by (intro conjI) (rule a b T [THEN conjunct1, THEN mp, OF a] T [THEN conjunct2, THEN mp, OF b])+
qed

text \<open>
  C5 as it is worded fails: with a store that refuses a Channel row of the first file,
  \<^verbatim>\<open>make\<close> ends in the exception and the file is still open.
\<close>

theorem C5_counterexample:
  "(case EphysRecording_make (refusing_channels two_files) key_2021_01_01 catalog_with_session of
      Inl (e, w') \<Rightarrow> e = InsertError \<and> open_files catalog_with_session = [] \<and>
                     open_files w' = [blackrock_dir @ ''foo_neu_001.ns5'']
    | Inr w' \<Rightarrow> False)"
  by (simp add: ephys_defs run_defs scenario_defs)

text \<open>
  C1 at the specification's own example, two files \<^verbatim>\<open>foo_neu_001.ns5\<close> and
  \<^verbatim>\<open>foo_neu_002.ns5\<close> with one electrode each and a store that takes every row.  The
  inner loop leaves in \<open>key\<close> the Channel row of the last electrode, and the next pass of
  the outer loop builds its EphysRecording row on it: the row of the second file
  carries \<open>channel_index\<close>, \<open>channel_id\<close> and \<open>channel_label\<close> as well.  The file indices
  are 0 and 1, and the Channel rows of each file are numbered from zero.
\<close>

theorem C1_second_file_row_carries_channel_fields:
  "(case EphysRecording_make two_files key_2021_01_01 catalog_with_session of
      Inl _ \<Rightarrow> False
    | Inr w' \<Rightarrow>
        map (map fst) (EphysRecording_tbl w') =
          [[''session_date'', ''monkey'', ''ephys_file_id'', ''ephys_sample_rate'',
            ''ephys_duration'', ''ephys_file_path''],
           [''session_date'', ''monkey'', ''ephys_file_id'', ''channel_index'', ''channel_id'',
            ''channel_label'', ''ephys_sample_rate'', ''ephys_duration'', ''ephys_file_path'']] \<and>
        map (\<lambda>r. map_of r ''ephys_file_id'') (EphysRecording_tbl w') = [Some (Num 0), Some (Num 1)] \<and>
        map (\<lambda>r. (map_of r ''ephys_file_id'', map_of r ''channel_index''))
          (EphysRecording_Channel_tbl w') =
          [(Some (Num 0), Some (Num 0)), (Some (Num 1), Some (Num 0))])"
  by (simp add: ephys_defs run_defs scenario_defs)

subsection \<open>Patterns that start with any run of characters\<close>

lemma lit_iff: "lit p s \<longleftrightarrow> (\<exists>b. s = p @ b)"
  by (induction p s rule: lit.induct) auto

lemma dotstar_base: "m s \<Longrightarrow> dotstar m s"
  by (cases s) auto

lemma dotstar_split: "dotstar m s \<Longrightarrow> \<exists>pre post. s = pre @ post \<and> m post"
proof (induction s)
  case Nil
  then show ?case by simp
next
  case (Cons c cs)
  from Cons.prems consider "m (c # cs)" | "dotstar m cs" by auto
  then show ?case
  proof cases
    case 1
    then have "c # cs = [] @ (c # cs) \<and> m (c # cs)" by simp
    then show ?thesis by blast
  next
    case 2
    with Cons.IH obtain pre post where "cs = pre @ post" "m post" by blast
    then have "c # cs = (c # pre) @ post \<and> m post" by simp
    then show ?thesis by blast
  qed
qed

lemma re_search_dotstar: "re_search (dotstar m) s \<longleftrightarrow> (\<exists>pre post. s = pre @ post \<and> m post)"
proof
  assume "re_search (dotstar m) s"
  then obtain pre post where s: "s = pre @ post" and "dotstar m post"
    unfolding re_search_iff by blast
  from dotstar_split [OF this(2)] obtain pre' post' where "post = pre' @ post'" "m post'"
    by blast
  with s have "s = (pre @ pre') @ post' \<and> m post'" by simp
  then show "\<exists>pre post. s = pre @ post \<and> m post" by blast
next
  assume "\<exists>pre post. s = pre @ post \<and> m post"
  then obtain pre post where "s = pre @ post" "m post" by blast
  then have "s = pre @ post \<and> dotstar m post" by (simp add: dotstar_base)
  then show "re_search (dotstar m) s" unfolding re_search_iff by blast
qed

lemma search_summary_iff: "search_summary f \<longleftrightarrow> (\<exists>a b. f = a @ ''.summary'' @ b)"
  unfolding search_summary_def re_search_dotstar lit_iff by blast

lemma search_notes_iff: "search_notes x \<longleftrightarrow> (\<exists>a b. x = a @ ''notes.txt'' @ b)"
  unfolding search_notes_def re_search_dotstar lit_iff by blast

lemma filter_first:
  "\<forall>y \<in> set pre. \<not> P y \<Longrightarrow> P x \<Longrightarrow> filter P (pre @ x # post) = x # filter P post"
  by (induction pre) auto

lemma next_match_first:
  "\<forall>y \<in> set pre. \<not> P y \<Longrightarrow> P x \<Longrightarrow> next_match P (pre @ x # post) = Inr x"
  by (simp add: next_match_def filter_first)

lemma next_match_none:
  "\<forall>y \<in> set files. \<not> P y \<Longrightarrow> next_match P files = Inl StopIteration"
proof -
  assume "\<forall>y \<in> set files. \<not> P y"
  then have "filter P files = []" by (simp add: filter_empty_conv)
  then show ?thesis by (simp add: next_match_def)
qed

subsection \<open>The summary file of a behavior recording\<close>

lemma BehaviorRecording_insert_error:
  "BehaviorRecording_insert E p v key w = Inl (e, w') \<Longrightarrow> w' = w"
  by (auto simp: BehaviorRecording_insert_def or_raise_def and_then_def Let_def
      split: if_splits sum.splits dest: insert1_error)

text \<open>
  C2, as the code has it, for a Speedgoat controller.  When no file of the speedgoat
  listing contains the text \<^verbatim>\<open>.summary\<close> (the pattern is searched for in the name),
  \<^verbatim>\<open>next\<close> raises StopIteration and nothing is inserted.  When some file does, the first
  such file in listing order is taken, whatever follows it: one row is inserted with
  its path and the sample rate 1000, and more than one match is not an error.  In any
  case an exception leaves the catalog as it was.
\<close>

theorem C2_first_summary_file_is_taken:
  "(listdir E (p @ ''/speedgoat/'') = Some files \<and>
    (\<forall>f \<in> set files. \<not> (\<exists>a b. f = a @ ''.summary'' @ b)) \<longrightarrow>
      BehaviorRecording_insert E p (Str ''Speedgoat'') key w = Inl (StopIteration, w)) \<and>
   (listdir E (p @ ''/speedgoat/'') = Some (pre @ f # post) \<and>
    (\<forall>g \<in> set pre. \<not> (\<exists>a b. g = a @ ''.summary'' @ b)) \<and>
    (\<exists>a b. f = a @ ''.summary'' @ b) \<longrightarrow>
      BehaviorRecording_insert E p (Str ''Speedgoat'') key w =
        insert1 E BehaviorRecording
          (AList.update ''behavior_sample_rate'' (Num 1000)
            (AList.update ''behavior_summary_file_path''
               (Str (ensureglobal E (p @ ''/speedgoat/'' @ f))) key)) w) \<and>
   (BehaviorRecording_make E key w = Inl (e, w') \<longrightarrow> w' = w)"
proof (intro conjI impI)
  assume h: "listdir E (p @ ''/speedgoat/'') = Some files \<and>
    (\<forall>f \<in> set files. \<not> (\<exists>a b. f = a @ ''.summary'' @ b))"
  then have "next_match search_summary files = Inl StopIteration"
    by (intro next_match_none) (simp add: search_summary_iff)
  with h show "BehaviorRecording_insert E p (Str ''Speedgoat'') key w = Inl (StopIteration, w)"
    by (simp add: BehaviorRecording_insert_def or_raise_def and_then_def os_call_def)
next
  assume h: "listdir E (p @ ''/speedgoat/'') = Some (pre @ f # post) \<and>
    (\<forall>g \<in> set pre. \<not> (\<exists>a b. g = a @ ''.summary'' @ b)) \<and>
    (\<exists>a b. f = a @ ''.summary'' @ b)"
  then have "next_match search_summary (pre @ f # post) = Inr f"
    by (intro next_match_first) (simp_all add: search_summary_iff)
  with h show "BehaviorRecording_insert E p (Str ''Speedgoat'') key w =
        insert1 E BehaviorRecording
          (AList.update ''behavior_sample_rate'' (Num 1000)
            (AList.update ''behavior_summary_file_path''
               (Str (ensureglobal E (p @ ''/speedgoat/'' @ f))) key)) w"
    by (simp add: BehaviorRecording_insert_def or_raise_def and_then_def os_call_def)
next
  assume "BehaviorRecording_make E key w = Inl (e, w')"
  then show "w' = w"
    by (auto simp: BehaviorRecording_make_def or_raise_def split: sum.splits
        dest: BehaviorRecording_insert_error)
qed

theorem C2_first_summary_file_is_taken_witness:
  "BehaviorRecording_insert no_summary (raw @ ''2021-01-01'') (Str ''Speedgoat'') key_2021_01_01
       catalog_with_session
     = Inl (StopIteration, catalog_with_session) \<and>
   BehaviorRecording_insert two_summaries (raw @ ''2021-01-01'') (Str ''Speedgoat'')
       key_2021_01_01 catalog_with_session
     = insert1 two_summaries BehaviorRecording
         (AList.update ''behavior_sample_rate'' (Num 1000)
           (AList.update ''behavior_summary_file_path''
              (Str (ensureglobal two_summaries
                      ((raw @ ''2021-01-01'') @ ''/speedgoat/'' @ ''a.summary'')))
              key_2021_01_01))
         catalog_with_session \<and>
   BehaviorRecording_make no_summary key_2021_01_01 catalog_with_session
     = Inl (StopIteration, catalog_with_session)"
proof -
  note T = C2_first_summary_file_is_taken
  have "\<not> search_summary ''readme.txt''" by (simp add: search_summary_def)
  then have n: "\<forall>f \<in> set [''readme.txt'']. \<not> (\<exists>a b. f = a @ ''.summary'' @ b)"
    by (simp add: search_summary_iff)
  have l1: "listdir no_summary ((raw @ ''2021-01-01'') @ ''/speedgoat/'') = Some [''readme.txt'']"
    by (simp add: scenario_defs)
  have a: "BehaviorRecording_insert no_summary (raw @ ''2021-01-01'') (Str ''Speedgoat'')
       key_2021_01_01 catalog_with_session = Inl (StopIteration, catalog_with_session)"
    by (rule T [THEN conjunct1, THEN mp, OF conjI [OF l1 n]])
  have "search_summary ''a.summary''" by (simp add: search_summary_def)
  then have y: "\<exists>a b. ''a.summary'' = a @ ''.summary'' @ b"
    by (simp only: search_summary_iff)
  have l2: "listdir two_summaries ((raw @ ''2021-01-01'') @ ''/speedgoat/'')
              = Some ([] @ ''a.summary'' # [''b.summary''])"
    by (simp add: scenario_defs)
  have e: "\<forall>g \<in> set []. \<not> (\<exists>a b. g = a @ ''.summary'' @ b)" by simp
  have b: "BehaviorRecording_insert two_summaries (raw @ ''2021-01-01'') (Str ''Speedgoat'')
       key_2021_01_01 catalog_with_session
     = insert1 two_summaries BehaviorRecording
         (AList.update ''behavior_sample_rate'' (Num 1000)
           (AList.update ''behavior_summary_file_path''
              (Str (ensureglobal two_summaries
                      ((raw @ ''2021-01-01'') @ ''/speedgoat/'' @ ''a.summary'')))
              key_2021_01_01))
         catalog_with_session"
    by (rule T [THEN conjunct2, THEN conjunct1, THEN mp, OF conjI [OF l2 conjI [OF e y]]])
  have m: "BehaviorRecording_make no_summary key_2021_01_01 catalog_with_session
     = Inl (StopIteration, snd (projl (BehaviorRecording_make no_summary key_2021_01_01
                                         catalog_with_session)))"
    by (simp add: BehaviorRecording_make_def BehaviorRecording_insert_def
        BehaviorRecording_fetch_def search_summary_def Let_def run_defs scenario_defs)
  have c: "BehaviorRecording_make no_summary key_2021_01_01 catalog_with_session
     = Inl (StopIteration, catalog_with_session)"
    using m T [THEN conjunct2, THEN conjunct2, THEN mp, OF m] by simp
  show ?thesis by (intro conjI) (rule a b c)+
qed

text \<open>
  C2 as it is worded fails: with two summary files the operation raises nothing and
  inserts a row, for the first of them.
\<close>

theorem C2_counterexample:
  "BehaviorRecording_make two_summaries key_2021_01_01 catalog_with_session
     = Inr (add_row BehaviorRecording
              [(''session_date'', Str ''2021-01-01''), (''monkey'', Str ''Cousteau''),
               (''behavior_summary_file_path'', Str (raw @ ''2021-01-01/speedgoat/a.summary'')),
               (''behavior_sample_rate'', Num 1000)]
              catalog_with_session)"
  by (simp add: BehaviorRecording_make_def BehaviorRecording_insert_def
      BehaviorRecording_fetch_def search_summary_def Let_def run_defs scenario_defs)

subsection \<open>Session.populate\<close>

lemmas populate_defs = Session_populate_def populate_date_def insert_notes_def session_dates_def
  candidate_dates_def dates_arg_def search_date_def search_notes_def digit_def newline_def Let_def

lemma insert_notes_rows:
  assumes "insert_notes E session_path session_files session_key date w = Inr w'"
  shows "(Session_Notes_tbl w' = Session_Notes_tbl w \<or>
          (\<exists>f_read. Session_Notes_tbl w' = Session_Notes_tbl w @
             [session_key @ [(''session_notes_id'', Num 0), (''session_notes'', Str f_read)]]))"
  using assms
  by (auto simp: insert_notes_def or_raise_def os_call_def insert1_def print_def
      split: sum.splits option.splits if_splits)

lemma insert1_other_table:
  "insert1 E t r w = Inr w' \<Longrightarrow> t \<noteq> Session_Notes \<Longrightarrow> Session_Notes_tbl w' = Session_Notes_tbl w"
  by (cases t) (auto simp: insert1_def split: if_splits)

lemma populate_date_notes:
  assumes "populate_date E L date w = Inr w'"
  shows "\<exists>new. Session_Notes_tbl w' = Session_Notes_tbl w @ new \<and>
           (\<forall>r \<in> set new. \<exists>session_key f_read.
              r = session_key @ [(''session_notes_id'', Num 0), (''session_notes'', Str f_read)])"
proof -
  from assms consider
    (skip) msg where "w' = print msg w"
  | (ins) r w1 sp fs sk w2 r' where "insert1 E Session r w = Inr w1"
      "insert_notes E sp fs sk date w1 = Inr w2" "insert1 E Session_Hardware r' w2 = Inr w'"
    unfolding populate_date_def Let_def or_raise_def and_then_def
    by (auto split: sum.splits if_splits)
  then show ?thesis
  proof cases
    case skip
    then have "Session_Notes_tbl w' = Session_Notes_tbl w @ []" by (simp add: print_def)
    then show ?thesis by (intro exI [of _ "[]"]) simp
  next
    case ins
    from insert1_other_table [OF ins(1)] insert1_other_table [OF ins(3)]
    have e: "Session_Notes_tbl w1 = Session_Notes_tbl w" "Session_Notes_tbl w' = Session_Notes_tbl w2"
      by simp_all
    from insert_notes_rows [OF ins(2)] show ?thesis
    proof
      assume "Session_Notes_tbl w2 = Session_Notes_tbl w1"
      with e have "Session_Notes_tbl w' = Session_Notes_tbl w @ []" by simp
      then show ?thesis by (intro exI [of _ "[]"]) simp
    next
      assume "\<exists>f_read. Session_Notes_tbl w2 = Session_Notes_tbl w1 @
             [sk @ [(''session_notes_id'', Num 0), (''session_notes'', Str f_read)]]"
      then obtain f_read where "Session_Notes_tbl w2 = Session_Notes_tbl w1 @
             [sk @ [(''session_notes_id'', Num 0), (''session_notes'', Str f_read)]]" by blast
      with e have "Session_Notes_tbl w' = Session_Notes_tbl w @
             [sk @ [(''session_notes_id'', Num 0), (''session_notes'', Str f_read)]]" by simp
      then show ?thesis
        by (intro exI [of _ "[sk @ [(''session_notes_id'', Num 0), (''session_notes'', Str f_read)]]"])
           auto
    qed
  qed
qed

lemma populate_dates_notes:
  "populate_dates E L ds w = Inr w' \<Longrightarrow>
   \<exists>new. Session_Notes_tbl w' = Session_Notes_tbl w @ new \<and>
     (\<forall>r \<in> set new. \<exists>session_key f_read.
        r = session_key @ [(''session_notes_id'', Num 0), (''session_notes'', Str f_read)])"
proof (induction ds arbitrary: w)
  case Nil
  then have "Session_Notes_tbl w' = Session_Notes_tbl w @ []" by simp
  then show ?case by (intro exI [of _ "[]"]) simp
next
  case (Cons d ds)
  from Cons.prems obtain w1 where
    a: "populate_date E L d w = Inr w1" and b: "populate_dates E L ds w1 = Inr w'"
    by (auto simp: and_then_def split: sum.splits)
  from populate_date_notes [OF a] obtain new1 where
    n1: "Session_Notes_tbl w1 = Session_Notes_tbl w @ new1"
    "\<forall>r \<in> set new1. \<exists>session_key f_read.
        r = session_key @ [(''session_notes_id'', Num 0), (''session_notes'', Str f_read)]"
    by blast
  from Cons.IH [OF b] obtain new2 where
    n2: "Session_Notes_tbl w' = Session_Notes_tbl w1 @ new2"
    "\<forall>r \<in> set new2. \<exists>session_key f_read.
        r = session_key @ [(''session_notes_id'', Num 0), (''session_notes'', Str f_read)]"
    by blast
  from n1 n2 have "Session_Notes_tbl w' = Session_Notes_tbl w @ (new1 @ new2)" by simp
  moreover from n1 n2 have "\<forall>r \<in> set (new1 @ new2). \<exists>session_key f_read.
        r = session_key @ [(''session_notes_id'', Num 0), (''session_notes'', Str f_read)]"
    by auto
  ultimately show ?case by blast
qed

lemma Session_populate_runs:
  "Session_populate E monkey rig task_q dates nsp w = Inr w' \<Longrightarrow>
   \<exists>L ds. populate_dates E L ds w = Inr w'"
  unfolding Session_populate_def Let_def or_raise_def
  by (auto split: sum.splits if_splits)

text \<open>
  C10.  The notes of a session are those of the first file of the listing whose name
  contains \<^verbatim>\<open>notes.txt\<close>: the files after it are not looked at and nothing is printed
  about them.  Every notes row that a run of \<^verbatim>\<open>Session.populate\<close> inserts has note id 0.
  On \<open>four_dates\<close>, where \<^verbatim>\<open>b_notes.txt\<close> is listed before \<^verbatim>\<open>a_notes.txt\<close>, the one notes row
  holds the text of \<^verbatim>\<open>b_notes.txt\<close>.
\<close>

theorem C10_first_notes_file_only:
  "(session_files = pre @ x # post \<and>
    (\<forall>y \<in> set pre. \<not> (\<exists>a b. y = a @ ''notes.txt'' @ b)) \<and>
    (\<exists>a b. x = a @ ''notes.txt'' @ b) \<and>
    read_text E (session_path @ x) = Some f_read \<longrightarrow>
      insert_notes E session_path session_files session_key date w =
        insert1 E Session_Notes
          (session_key @ [(''session_notes_id'', Num 0), (''session_notes'', Str f_read)]) w \<and>
      (\<forall>w'. insert_notes E session_path session_files session_key date w = Inr w' \<longrightarrow>
         printed w' = printed w \<and>
         Session_Notes_tbl w' = Session_Notes_tbl w @
           [session_key @ [(''session_notes_id'', Num 0), (''session_notes'', Str f_read)]])) \<and>
   (Session_populate E monkey rig task_q dates nsp w = Inr w1 \<longrightarrow>
      (\<exists>new. Session_Notes_tbl w1 = Session_Notes_tbl w @ new \<and>
         (\<forall>r \<in> set new. \<exists>session_key f_read.
            r = session_key @ [(''session_notes_id'', Num 0), (''session_notes'', Str f_read)]))) \<and>
   Session_populate four_dates Cousteau Jumanji pacman None [Cerebus] catalog
     = Inr catalog_four_dates"
proof (intro conjI impI)
  assume h: "session_files = pre @ x # post \<and>
    (\<forall>y \<in> set pre. \<not> (\<exists>a b. y = a @ ''notes.txt'' @ b)) \<and>
    (\<exists>a b. x = a @ ''notes.txt'' @ b) \<and>
    read_text E (session_path @ x) = Some f_read"
  then have "next_match search_notes (pre @ x # post) = Inr x"
    by (intro next_match_first) (simp_all add: search_notes_iff)
  with h show i: "insert_notes E session_path session_files session_key date w =
        insert1 E Session_Notes
          (session_key @ [(''session_notes_id'', Num 0), (''session_notes'', Str f_read)]) w"
    by (simp add: insert_notes_def or_raise_def os_call_def)
  show "\<forall>w'. insert_notes E session_path session_files session_key date w = Inr w' \<longrightarrow>
         printed w' = printed w \<and>
         Session_Notes_tbl w' = Session_Notes_tbl w @
           [session_key @ [(''session_notes_id'', Num 0), (''session_notes'', Str f_read)]]"
    unfolding i by (auto simp: insert1_def split: if_splits)
next
  assume "Session_populate E monkey rig task_q dates nsp w = Inr w1"
  from Session_populate_runs [OF this] obtain L ds where "populate_dates E L ds w = Inr w1"
    by blast
  from populate_dates_notes [OF this]
  show "\<exists>new. Session_Notes_tbl w1 = Session_Notes_tbl w @ new \<and>
         (\<forall>r \<in> set new. \<exists>session_key f_read.
            r = session_key @ [(''session_notes_id'', Num 0), (''session_notes'', Str f_read)])" .
next
  show "Session_populate four_dates Cousteau Jumanji pacman None [Cerebus] catalog
     = Inr catalog_four_dates"
    by (simp add: populate_defs run_defs scenario_defs)
qed

theorem C10_first_notes_file_only_witness:
  "insert_notes four_dates (raw @ ''2021-01-01/'')
       ([] @ ''b_notes.txt'' # [''a_notes.txt'', ''speedgoat'', ''blackrock''])
       key_2021_01_01 ''2021-01-01'' catalog
     = insert1 four_dates Session_Notes
         (key_2021_01_01 @ [(''session_notes_id'', Num 0), (''session_notes'', Str ''listed first'')])
         catalog \<and>
   (\<exists>new. Session_Notes_tbl catalog_four_dates = Session_Notes_tbl catalog @ new \<and>
      (\<forall>r \<in> set new. \<exists>session_key f_read.
         r = session_key @ [(''session_notes_id'', Num 0), (''session_notes'', Str f_read)]))"
proof -
  note T = C10_first_notes_file_only
    [where E = four_dates and session_path = "raw @ ''2021-01-01/''" and pre = "[]"
       and x = "''b_notes.txt''" and post = "[''a_notes.txt'', ''speedgoat'', ''blackrock'']"
       and session_files = "[] @ ''b_notes.txt'' # [''a_notes.txt'', ''speedgoat'', ''blackrock'']"
       and f_read = "''listed first''" and session_key = key_2021_01_01
       and date = "''2021-01-01''" and w = catalog and monkey = Cousteau and rig = Jumanji
       and task_q = pacman and dates = None and nsp = "[Cerebus]" and ?w1.0 = catalog_four_dates]
  have h2: "\<forall>y \<in> set []. \<not> (\<exists>a b. y = a @ ''notes.txt'' @ b)" by simp
  have "search_notes ''b_notes.txt''" by (simp add: search_notes_def)
  then have h3: "\<exists>a b. ''b_notes.txt'' = a @ ''notes.txt'' @ b"
    by (simp only: search_notes_iff)
  have h4: "read_text four_dates ((raw @ ''2021-01-01/'') @ ''b_notes.txt'') = Some ''listed first''"
    by (simp add: scenario_defs)
  have a: "insert_notes four_dates (raw @ ''2021-01-01/'')
       ([] @ ''b_notes.txt'' # [''a_notes.txt'', ''speedgoat'', ''blackrock''])
       key_2021_01_01 ''2021-01-01'' catalog
     = insert1 four_dates Session_Notes
         (key_2021_01_01 @ [(''session_notes_id'', Num 0), (''session_notes'', Str ''listed first'')])
         catalog"
    by (rule T [THEN conjunct1, THEN mp, OF conjI [OF refl conjI [OF h2 conjI [OF h3 h4]]],
          THEN conjunct1])
  have b: "\<exists>new. Session_Notes_tbl catalog_four_dates = Session_Notes_tbl catalog @ new \<and>
      (\<forall>r \<in> set new. \<exists>session_key f_read.
         r = session_key @ [(''session_notes_id'', Num 0), (''session_notes'', Str f_read)])"
    by (rule T [THEN conjunct2, THEN conjunct1, THEN mp, OF T [THEN conjunct2, THEN conjunct2]])
  show ?thesis by (intro conjI) (rule a b)+
qed

lemma next_eq_absent: "d \<notin> set files \<Longrightarrow> next_eq (Some d) files = Inl StopIteration"
proof -
  assume "d \<notin> set files"
  then have f: "filter (\<lambda>x. x = d) files = []" by (auto simp: filter_empty_conv)
  show ?thesis
  proof (cases files)
    case Nil
    then show ?thesis by (simp add: next_eq_def)
  next
    case (Cons a as)
    with f have "filter (\<lambda>x. x = d) (a # as) = []" by simp
    then show ?thesis unfolding next_eq_def Cons by (simp only: list.case option.case)
  qed
qed

lemma next_eq_bound: "next_eq (Some d) files \<noteq> Inl NameError"
  by (simp add: next_eq_def split: list.splits)

lemma next_eq_errors: "next_eq (Some d) files = Inl e \<Longrightarrow> e = StopIteration"
  by (auto simp: next_eq_def split: list.splits)

lemma next_eq_present: "d \<in> set files \<Longrightarrow> \<exists>x. next_eq (Some d) files = Inr x"
proof -
  assume d: "d \<in> set files"
  then have "filter (\<lambda>x. x = d) files \<noteq> []" by (auto simp: filter_empty_conv)
  then obtain x xs where f: "filter (\<lambda>x. x = d) files = x # xs"
    by (cases "filter (\<lambda>x. x = d) files") auto
  from d obtain a as where c: "files = a # as" by (cases files) auto
  from f have "next_eq (Some d) files = Inr x"
    unfolding next_eq_def c by (simp only: list.case option.case)
  then show ?thesis by blast
qed

lemma insert_notes_errors:
  "insert_notes E sp fs sk date w = Inl (e, w') \<Longrightarrow> e = OSError \<or> e = InsertError"
  by (auto simp: insert_notes_def or_raise_def os_call_def
      split: sum.splits option.splits dest: insert1_error)

lemma populate_date_errors:
  assumes "restrict (task L) [(''task_controller_hardware'', Str ''Speedgoat'')] \<noteq> []"
    and "item (nsp_key L) ''hardware'' = Inr (Str ''Cerebus'')"
    and "populate_date E L date w = Inl (e, w')"
  shows "e = OSError \<or> e = InsertError"
  using assms unfolding populate_date_def Let_def or_raise_def and_then_def os_call_def
  by (auto split: sum.splits option.splits if_splits
      dest: insert1_error insert_notes_errors next_eq_errors)

lemma populate_dates_errors:
  assumes "restrict (task L) [(''task_controller_hardware'', Str ''Speedgoat'')] \<noteq> []"
    and "item (nsp_key L) ''hardware'' = Inr (Str ''Cerebus'')"
  shows "populate_dates E L ds w = Inl (e, w') \<Longrightarrow> e = OSError \<or> e = InsertError"
proof (induction ds arbitrary: w)
  case Nil
  then show ?case by simp
next
  case (Cons d ds)
  show ?case
  proof (cases "populate_date E L d w")
    case (Inl x)
    with Cons.prems have "populate_date E L d w = Inl (e, w')" by (simp add: and_then_def)
    from populate_date_errors [OF assms this] show ?thesis .
  next
    case (Inr w1)
    with Cons.prems have "populate_dates E L ds w1 = Inl (e, w')" by (simp add: and_then_def)
    from Cons.IH [OF this] show ?thesis .
  qed
qed

text \<open>
  C6, for a task run by a Speedgoat controller and the Cerebus signal processor.  A
  date whose directory has no \<^verbatim>\<open>speedgoat\<close> entry only adds a line to what is printed,
  and the loop goes on with the remaining dates from there; so does a date without
  \<^verbatim>\<open>blackrock\<close>; a session without a notes file prints a line and is recorded.  No
  exception of a run comes from a missing artifact: the run ends early only when the
  file system or the store raises.  On \<open>four_dates\<close> the run records the first and the
  fourth date and prints the three lines.
\<close>

theorem C6_missing_artifacts_are_skipped:
  "(restrict (task L) [(''task_controller_hardware'', Str ''Speedgoat'')] \<noteq> [] \<and>
    listdir E (raw_path L @ date @ ''/'') = Some session_files \<and>
    ''speedgoat'' \<notin> set session_files \<longrightarrow>
      populate_dates E L (date # ds) w =
        populate_dates E L ds (print (''Missing behavior files for session '' @ date) w)) \<and>
   (restrict (task L) [(''task_controller_hardware'', Str ''Speedgoat'')] \<noteq> [] \<and>
    item (nsp_key L) ''hardware'' = Inr (Str ''Cerebus'') \<and>
    listdir E (raw_path L @ date @ ''/'') = Some session_files \<and>
    ''speedgoat'' \<in> set session_files \<and> ''blackrock'' \<notin> set session_files \<longrightarrow>
      populate_dates E L (date # ds) w =
        populate_dates E L ds (print (''Missing ephys files for session '' @ date) w)) \<and>
   ((\<forall>x \<in> set session_files. \<not> (\<exists>a b. x = a @ ''notes.txt'' @ b)) \<longrightarrow>
      insert_notes E session_path session_files session_key date w =
        Inr (print (''Missing notes for session '' @ date) w)) \<and>
   (restrict (task L) [(''task_controller_hardware'', Str ''Speedgoat'')] \<noteq> [] \<and>
    item (nsp_key L) ''hardware'' = Inr (Str ''Cerebus'') \<and>
    populate_dates E L ds w = Inl (e, w') \<longrightarrow> e = OSError \<or> e = InsertError) \<and>
   Session_populate four_dates Cousteau Jumanji pacman None [Cerebus] catalog
     = Inr catalog_four_dates"
proof (intro conjI impI)
  assume h: "restrict (task L) [(''task_controller_hardware'', Str ''Speedgoat'')] \<noteq> [] \<and>
    listdir E (raw_path L @ date @ ''/'') = Some session_files \<and>
    ''speedgoat'' \<notin> set session_files"
  then have "next_eq (Some ''speedgoat'') session_files = Inl StopIteration"
    by (simp add: next_eq_absent)
  with h have "populate_date E L date w
      = Inr (print (''Missing behavior files for session '' @ date) w)"
    by (simp add: populate_date_def or_raise_def os_call_def)
  then show "populate_dates E L (date # ds) w =
        populate_dates E L ds (print (''Missing behavior files for session '' @ date) w)"
    by (simp add: and_then_def)
next
  assume h: "restrict (task L) [(''task_controller_hardware'', Str ''Speedgoat'')] \<noteq> [] \<and>
    item (nsp_key L) ''hardware'' = Inr (Str ''Cerebus'') \<and>
    listdir E (raw_path L @ date @ ''/'') = Some session_files \<and>
    ''speedgoat'' \<in> set session_files \<and> ''blackrock'' \<notin> set session_files"
  then obtain x where x: "next_eq (Some ''speedgoat'') session_files = Inr x"
    using next_eq_present by blast
  from h have "next_eq (Some ''blackrock'') session_files = Inl StopIteration"
    by (simp add: next_eq_absent)
  with h x have "populate_date E L date w
      = Inr (print (''Missing ephys files for session '' @ date) w)"
    by (simp add: populate_date_def or_raise_def os_call_def)
  then show "populate_dates E L (date # ds) w =
        populate_dates E L ds (print (''Missing ephys files for session '' @ date) w)"
    by (simp add: and_then_def)
next
  assume "\<forall>x \<in> set session_files. \<not> (\<exists>a b. x = a @ ''notes.txt'' @ b)"
  then have "next_match search_notes session_files = Inl StopIteration"
    by (intro next_match_none) (simp add: search_notes_iff)
  then show "insert_notes E session_path session_files session_key date w =
        Inr (print (''Missing notes for session '' @ date) w)"
    by (simp add: insert_notes_def)
next
  assume "restrict (task L) [(''task_controller_hardware'', Str ''Speedgoat'')] \<noteq> [] \<and>
    item (nsp_key L) ''hardware'' = Inr (Str ''Cerebus'') \<and>
    populate_dates E L ds w = Inl (e, w')"
  then show "e = OSError \<or> e = InsertError"
    using populate_dates_errors by blast
next
  show "Session_populate four_dates Cousteau Jumanji pacman None [Cerebus] catalog
     = Inr catalog_four_dates"
    by (simp add: populate_defs run_defs scenario_defs)
qed

theorem C6_missing_artifacts_are_skipped_witness:
  "populate_dates four_dates locals_cousteau (''2021-01-02'' # [''2021-01-03'']) catalog =
     populate_dates four_dates locals_cousteau [''2021-01-03'']
       (print (''Missing behavior files for session '' @ ''2021-01-02'') catalog) \<and>
   populate_dates four_dates locals_cousteau (''2021-01-03'' # []) catalog =
     populate_dates four_dates locals_cousteau []
       (print (''Missing ephys files for session '' @ ''2021-01-03'') catalog) \<and>
   insert_notes four_dates (raw @ ''2021-01-04/'') [''speedgoat'', ''blackrock'']
       key_2021_01_01 ''2021-01-04'' catalog =
     Inr (print (''Missing notes for session '' @ ''2021-01-04'') catalog) \<and>
   populate_dates four_dates locals_cousteau [''2021-01-05''] catalog = Inl (OSError, catalog) \<and>
   (OSError = OSError \<or> OSError = InsertError)"
proof -
  have s: "restrict (task locals_cousteau) [(''task_controller_hardware'', Str ''Speedgoat'')] \<noteq> []"
    by (simp add: run_defs scenario_defs)
  have c: "item (nsp_key locals_cousteau) ''hardware'' = Inr (Str ''Cerebus'')"
    by (simp add: run_defs scenario_defs)
  have l2: "listdir four_dates (raw_path locals_cousteau @ ''2021-01-02'' @ ''/'')
              = Some [''blackrock'', ''notes.txt'']"
    by (simp add: scenario_defs)
  have n2: "''speedgoat'' \<notin> set [''blackrock'', ''notes.txt'']" by simp
  have a: "populate_dates four_dates locals_cousteau (''2021-01-02'' # [''2021-01-03'']) catalog =
     populate_dates four_dates locals_cousteau [''2021-01-03'']
       (print (''Missing behavior files for session '' @ ''2021-01-02'') catalog)"
    by (rule C6_missing_artifacts_are_skipped
        [THEN conjunct1, THEN mp, OF conjI [OF s conjI [OF l2 n2]]])
  have l3: "listdir four_dates (raw_path locals_cousteau @ ''2021-01-03'' @ ''/'')
              = Some [''speedgoat'']"
    by (simp add: scenario_defs)
  have n3: "''speedgoat'' \<in> set [''speedgoat''] \<and> ''blackrock'' \<notin> set [''speedgoat'']" by simp
  have b: "populate_dates four_dates locals_cousteau (''2021-01-03'' # []) catalog =
     populate_dates four_dates locals_cousteau []
       (print (''Missing ephys files for session '' @ ''2021-01-03'') catalog)"
    by (rule C6_missing_artifacts_are_skipped
        [THEN conjunct2, THEN conjunct1, THEN mp, OF conjI [OF s conjI [OF c conjI [OF l3 n3]]]])
  have "\<not> search_notes ''speedgoat''" "\<not> search_notes ''blackrock''"
    by (simp_all add: search_notes_def)
  then have n4: "\<forall>x \<in> set [''speedgoat'', ''blackrock'']. \<not> (\<exists>a b. x = a @ ''notes.txt'' @ b)"
    by (simp add: search_notes_iff)
  have d: "insert_notes four_dates (raw @ ''2021-01-04/'') [''speedgoat'', ''blackrock'']
       key_2021_01_01 ''2021-01-04'' catalog =
     Inr (print (''Missing notes for session '' @ ''2021-01-04'') catalog)"
    by (rule C6_missing_artifacts_are_skipped
        [THEN conjunct2, THEN conjunct2, THEN conjunct1, THEN mp, OF n4])
  have e: "populate_dates four_dates locals_cousteau [''2021-01-05''] catalog = Inl (OSError, catalog)"
    by (simp add: populate_defs run_defs scenario_defs)
  have f: "OSError = OSError \<or> OSError = InsertError"
    by (rule C6_missing_artifacts_are_skipped
        [THEN conjunct2, THEN conjunct2, THEN conjunct2, THEN conjunct1, THEN mp,
         OF conjI [OF s conjI [OF c e]]])
  show ?thesis by (intro conjI) (rule a b d e f)+
qed

subsection \<open>Running the scanner twice\<close>

lemma insert1_Session_tbl:
  "insert1 E t r w = Inr w' \<Longrightarrow>
   Session_tbl w' = (if t = Session then Session_tbl w @ [r] else Session_tbl w)"
  by (cases t) (auto simp: insert1_def split: if_splits)

lemma insert1_tables:
  "insert1 E t r w = Inr w' \<Longrightarrow> set (Session_tbl w) \<subseteq> set (Session_tbl w')"
  by (cases t) (auto simp: insert1_def split: if_splits)

lemma insert_notes_Session_tbl:
  "insert_notes E sp fs sk date w = Inr w' \<Longrightarrow> Session_tbl w' = Session_tbl w"
  by (auto simp: insert_notes_def or_raise_def os_call_def print_def
      split: sum.splits option.splits dest!: insert1_Session_tbl)

text \<open>
  What a date comes to does not depend on the catalog: either the date is skipped,
  with a line printed, in every catalog, or a pass that returns has recorded a session
  of that date.
\<close>

lemma populate_date_cases:
  "(\<exists>msg. \<forall>w. populate_date E L d w = Inr (print msg w)) \<or>
   (\<forall>w w'. populate_date E L d w = Inr w' \<longrightarrow>
      Session_tbl w' = Session_tbl w @
        [((''session_date'', Str d) # monkey_key L) @ rig_key L @ task_key L])"
proof (cases "listdir E (raw_path L @ d @ ''/'')")
  case None
  then show ?thesis by (simp add: populate_date_def or_raise_def os_call_def)
next
  case (Some files)
  let ?b = "next_eq (if restrict (task L) [(''task_controller_hardware'', Str ''Speedgoat'')] \<noteq> []
                     then Some ''speedgoat'' else None) files"
  show ?thesis
  proof (cases ?b)
    case (Inl e)
    with Some show ?thesis
      by (cases "e = StopIteration") (auto simp: populate_date_def or_raise_def os_call_def)
  next
    case b: (Inr x)
    show ?thesis
    proof (cases "item (nsp_key L) ''hardware''")
      case (Inl e)
      with Some b show ?thesis by (simp add: populate_date_def or_raise_def os_call_def)
    next
      case hw: (Inr hardware)
      let ?e = "next_eq (if hardware = Str ''Cerebus'' then Some ''blackrock'' else None) files"
      show ?thesis
      proof (cases ?e)
        case (Inl e)
        with Some b hw show ?thesis
          by (cases "e = StopIteration") (auto simp: populate_date_def or_raise_def os_call_def)
      next
        case e: (Inr y)
        have "\<forall>w w'. populate_date E L d w = Inr w' \<longrightarrow>
          Session_tbl w' = Session_tbl w @
            [((''session_date'', Str d) # monkey_key L) @ rig_key L @ task_key L]"
        proof (intro allI impI)
          fix w w'
          assume "populate_date E L d w = Inr w'"
          with Some b hw e obtain w1 w2 sp sk r where
            i1: "insert1 E Session
                   (((''session_date'', Str d) # monkey_key L) @ rig_key L @ task_key L) w = Inr w1"
            and i2: "insert_notes E sp files sk d w1 = Inr w2"
            and i3: "insert1 E Session_Hardware r w2 = Inr w'"
            by (auto simp: populate_date_def or_raise_def os_call_def and_then_def Let_def
                split: sum.splits)
          from insert1_Session_tbl [OF i1] insert_notes_Session_tbl [OF i2]
            insert1_Session_tbl [OF i3]
          show "Session_tbl w' = Session_tbl w @
            [((''session_date'', Str d) # monkey_key L) @ rig_key L @ task_key L]"
            by simp
        qed
        then show ?thesis by blast
      qed
    qed
  qed
qed

lemma populate_date_grows:
  "populate_date E L d w = Inr w' \<Longrightarrow> set (Session_tbl w) \<subseteq> set (Session_tbl w')"
  using populate_date_cases [of E L d] by (auto simp: print_def)

lemma populate_dates_grows:
  "populate_dates E L ds w = Inr w' \<Longrightarrow> set (Session_tbl w) \<subseteq> set (Session_tbl w')"
proof (induction ds arbitrary: w)
  case Nil
  then show ?case by simp
next
  case (Cons d ds)
  from Cons.prems obtain w1 where
    a: "populate_date E L d w = Inr w1" and b: "populate_dates E L ds w1 = Inr w'"
    by (auto simp: and_then_def split: sum.splits)
  from populate_date_grows [OF a] Cons.IH [OF b] show ?case by blast
qed

lemma restrict_nonempty:
  "restrict q key \<noteq> [] \<longleftrightarrow> (\<exists>r \<in> set q. agree r key)"
  by (auto simp: restrict_def filter_empty_conv)

lemma recorded_date:
  "agree (((''session_date'', Str d) # mk) @ rk @ tk) [(''session_date'', Str d)]"
  by (simp add: agree_def)

lemma populate_dates_recorded:
  "populate_dates E L ds w = Inr w' \<Longrightarrow> d \<in> set ds \<Longrightarrow>
   (\<exists>msg. \<forall>w. populate_date E L d w = Inr (print msg w)) \<or>
   restrict (Session_tbl w') [(''session_date'', Str d)] \<noteq> []"
proof (induction ds arbitrary: w)
  case Nil
  then show ?case by simp
next
  case (Cons a ds)
  from Cons.prems obtain w1 where
    a: "populate_date E L a w = Inr w1" and b: "populate_dates E L ds w1 = Inr w'"
    by (auto simp: and_then_def split: sum.splits)
  show ?case
  proof (cases "d = a")
    case True
    from populate_date_cases [of E L a] show ?thesis
    proof
      assume "\<exists>msg. \<forall>w. populate_date E L a w = Inr (print msg w)"
      with True show ?thesis by simp
    next
      assume "\<forall>w w'. populate_date E L a w = Inr w' \<longrightarrow>
        Session_tbl w' = Session_tbl w @
          [((''session_date'', Str a) # monkey_key L) @ rig_key L @ task_key L]"
      with a have "((''session_date'', Str a) # monkey_key L) @ rig_key L @ task_key L
                     \<in> set (Session_tbl w1)" by simp
      with populate_dates_grows [OF b]
      have "((''session_date'', Str a) # monkey_key L) @ rig_key L @ task_key L
              \<in> set (Session_tbl w')" by blast
      with recorded_date [of a] True show ?thesis
        unfolding restrict_nonempty by blast
    qed
  next
    case False
    with Cons.prems have "d \<in> set ds" by simp
    from Cons.IH [OF b this] show ?thesis .
  qed
qed

lemma populate_dates_skipped:
  "\<forall>d \<in> set ds. \<exists>msg. \<forall>w. populate_date E L d w = Inr (print msg w) \<Longrightarrow>
   \<exists>w2. populate_dates E L ds w = Inr w2 \<and> w2 = w\<lparr>printed := printed w2\<rparr>"
proof (induction ds arbitrary: w)
  case Nil
  then show ?case by simp
next
  case (Cons d ds)
  then obtain msg where m: "populate_date E L d w = Inr (print msg w)" by auto
  from Cons have "\<exists>w2. populate_dates E L ds (print msg w) = Inr w2 \<and>
     w2 = (print msg w)\<lparr>printed := printed w2\<rparr>" by simp
  then obtain w2 where "populate_dates E L ds (print msg w) = Inr w2"
    "w2 = (print msg w)\<lparr>printed := printed w2\<rparr>" by blast
  with m have "populate_dates E L (d # ds) w = Inr w2 \<and> w2 = w\<lparr>printed := printed w2\<rparr>"
    by (simp add: and_then_def print_def)
  then show ?case by blast
qed

lemma populate_dates_twice:
  assumes "populate_dates E L (session_dates dates listing w) w = Inr w1"
  shows "\<exists>w2. populate_dates E L (session_dates dates listing w1) w1 = Inr w2 \<and>
           w2 = w1\<lparr>printed := printed w2\<rparr>"
proof (rule populate_dates_skipped, rule ballI)
  fix d
  assume d: "d \<in> set (session_dates dates listing w1)"
  then have c: "d \<in> set (candidate_dates dates listing)"
    and n1: "restrict (Session_tbl w1) [(''session_date'', Str d)] = []"
    by (simp_all add: session_dates_def)
  from populate_dates_grows [OF assms] n1
  have "restrict (Session_tbl w) [(''session_date'', Str d)] = []"
    using restrict_nonempty by blast
  with c have "d \<in> set (session_dates dates listing w)" by (simp add: session_dates_def)
  from populate_dates_recorded [OF assms this] n1
  show "\<exists>msg. \<forall>w. populate_date E L d w = Inr (print msg w)" by blast
qed

text \<open>
  A second run on the same directory tree only prints: the dates it still finds are
  the ones the first run skipped, and it skips them again.
\<close>

lemma Session_populate_twice:
  assumes "Session_populate E monkey rig task_q dates nsp w = Inr w1"
  shows "\<exists>w2. Session_populate E monkey rig task_q dates nsp w1 = Inr w2 \<and>
           w2 = w1\<lparr>printed := printed w2\<rparr>"
proof -
  from assms obtain L listing where
    r: "populate_dates E L (session_dates dates listing w) w = Inr w1" and
    s: "\<And>w'. Session_populate E monkey rig task_q dates nsp w' =
           populate_dates E L (session_dates dates listing w') w'"
    unfolding Session_populate_def Let_def or_raise_def
    by (auto split: sum.splits if_splits)
  from populate_dates_twice [OF r] s show ?thesis by simp
qed

text \<open>
  C3 at a catalog in which another monkey, Igor, has a session on 2021-01-01.  The
  filter of line 126 restricts the Session table by the date alone, so Cousteau's
  complete directory of that date is not a candidate: the run inserts nothing and
  prints nothing.  On the empty catalog the same run records the session.  (That a
  second run adds no row is \<open>Session_populate_twice\<close> above.)
\<close>

theorem C3_other_monkeys_session_excludes_date:
  "session_dates None [''2021-01-01''] catalog_other_monkey = [] \<and>
   restrict (Session_tbl catalog_other_monkey)
     [(''session_date'', Str ''2021-01-01''), (''monkey'', Str ''Cousteau'')] = [] \<and>
   Session_populate one_date Cousteau Jumanji pacman None [Cerebus] catalog_other_monkey
     = Inr catalog_other_monkey \<and>
   Session_populate one_date Cousteau Jumanji pacman None [Cerebus] catalog
     = Inr (catalog\<lparr>Session_tbl := [session_row ''2021-01-01'' ''Cousteau''],
                    Session_Hardware_tbl := [hardware_row ''2021-01-01'' ''Cousteau''],
                    printed := [''Missing notes for session 2021-01-01'']\<rparr>)"
  by (simp add: populate_defs run_defs scenario_defs)

end
